theory Spec2Isabelle
  imports Complex_Main "HOL-Library.Multiset" "HOL-Library.AList"
begin

section \<open>Python strings\<close>

text \<open>
  Strings of \<^verbatim>\<open>backend/app.py\<close> are modelled as lists of 8-bit characters. Case
  conversion follows Python on the ASCII letters and leaves every other character alone
  (all keywords, identifiers and patterns of the program are ASCII). Whitespace is what
  \<^verbatim>\<open>str.strip()\<close>, \<^verbatim>\<open>str.isspace()\<close> and the regex class \<^verbatim>\<open>\s\<close>
  agree on below code point 256.
\<close>

definition is_space :: "char \<Rightarrow> bool" where
  "is_space c =
     (let n = (of_char c :: nat)
      in (9 \<le> n \<and> n \<le> 13) \<or> (28 \<le> n \<and> n \<le> 32) \<or> n = 133 \<or> n = 160)"

definition is_digit :: "char \<Rightarrow> bool" where
  "is_digit c = (c \<in> set ''0123456789'')"

definition digit_val :: "char \<Rightarrow> nat" where
  "digit_val c = (of_char c :: nat) - 48"

definition digit_char :: "nat \<Rightarrow> char" where
  "digit_char n = ''0123456789'' ! n"

definition ascii_uppercase :: string where
  "ascii_uppercase = ''ABCDEFGHIJKLMNOPQRSTUVWXYZ''"

definition ascii_lowercase :: string where
  "ascii_lowercase = ''abcdefghijklmnopqrstuvwxyz''"

definition lower_char :: "char \<Rightarrow> char" where
  "lower_char c =
     (case map_of (zip ascii_uppercase ascii_lowercase) c of Some d \<Rightarrow> d | None \<Rightarrow> c)"

definition upper_char :: "char \<Rightarrow> char" where
  "upper_char c =
     (case map_of (zip ascii_lowercase ascii_uppercase) c of Some d \<Rightarrow> d | None \<Rightarrow> c)"

definition lower :: "string \<Rightarrow> string" where
  "lower s = map lower_char s"

definition upper :: "string \<Rightarrow> string" where
  "upper s = map upper_char s"

definition strip :: "string \<Rightarrow> string" where
  "strip s = rev (dropWhile is_space (rev (dropWhile is_space s)))"

text \<open>\<^verbatim>\<open>str(n)\<close> for a non-negative integer.\<close>

fun str_nat :: "nat \<Rightarrow> string" where
  "str_nat n =
     (if n < 10 then [digit_char n] else str_nat (n div 10) @ [digit_char (n mod 10)])"

declare str_nat.simps [simp del]

text \<open>\<^verbatim>\<open>a.startswith(p)\<close>, \<^verbatim>\<open>a.endswith(p)\<close> and \<^verbatim>\<open>p in a\<close> on strings.\<close>

fun startswith :: "string \<Rightarrow> string \<Rightarrow> bool" where
  "startswith s [] = True"
| "startswith [] (p # ps) = False"
| "startswith (c # cs) (p # ps) = (c = p \<and> startswith cs ps)"

definition endswith :: "string \<Rightarrow> string \<Rightarrow> bool" where
  "endswith s p = startswith (rev s) (rev p)"

fun contains :: "string \<Rightarrow> string \<Rightarrow> bool" where
  "contains p [] = (p = [])"
| "contains p (c # cs) = (startswith (c # cs) p \<or> contains p cs)"

text \<open>
  \<^verbatim>\<open>s.replace(old, new)\<close>: every non-overlapping occurrence, left to right. The program
  only calls it with a non-empty \<open>old\<close>; with an empty one the model returns \<open>s\<close>.
\<close>

function replace :: "string \<Rightarrow> string \<Rightarrow> string \<Rightarrow> string" where
  "replace old new [] = []"
| "replace old new (c # cs) =
     (if old \<noteq> [] \<and> startswith (c # cs) old
      then new @ replace old new (drop (length old) (c # cs))
      else c # replace old new cs)"
  by pat_completeness auto
termination
  by (relation "measure (\<lambda>(old, new, s). length s)") auto

text \<open>\<^verbatim>\<open>s.split(sep)\<close> for a one-character separator: never an empty list.\<close>

fun split_on :: "char \<Rightarrow> string \<Rightarrow> string list" where
  "split_on d [] = [[]]"
| "split_on d (c # cs) =
     (if c = d then [] # split_on d cs
      else (case split_on d cs of p # ps \<Rightarrow> (c # p) # ps | [] \<Rightarrow> [[c]]))"

text \<open>\<^verbatim>\<open>s.zfill(width)\<close>: zeros go after a leading sign.\<close>

definition zfill :: "nat \<Rightarrow> string \<Rightarrow> string" where
  "zfill w s =
     (if w \<le> length s then s
      else (case s of
              [] \<Rightarrow> replicate w (CHR ''0'')
            | c # cs \<Rightarrow>
                if c = CHR ''+'' \<or> c = CHR ''-''
                then c # replicate (w - length s) (CHR ''0'') @ cs
                else replicate (w - length s) (CHR ''0'') @ s))"

text \<open>
  \<^verbatim>\<open>int(s)\<close> in base 10: surrounding whitespace, one optional sign, then decimal digits
  in which single underscores may separate digits. \<open>None\<close> is Python's ValueError.
\<close>

fun parse_digits :: "nat \<Rightarrow> bool \<Rightarrow> string \<Rightarrow> nat option" where
  "parse_digits acc after_digit [] = (if after_digit then Some acc else None)"
| "parse_digits acc after_digit (c # cs) =
     (if is_digit c then parse_digits (10 * acc + digit_val c) True cs
      else if c = CHR ''_'' \<and> after_digit then parse_digits acc False cs
      else None)"

definition py_int :: "string \<Rightarrow> int option" where
  "py_int s =
     (case strip s of
        [] \<Rightarrow> None
      | c # cs \<Rightarrow>
          if c = CHR ''-'' then map_option (\<lambda>n. - int n) (parse_digits 0 False cs)
          else if c = CHR ''+'' then map_option int (parse_digits 0 False cs)
          else map_option int (parse_digits 0 False (c # cs)))"

section \<open>Exceptions\<close>

text \<open>
  The exceptions the program raises or catches. The text of an exception raised by the
  Python runtime or by a library is not modelled; where the program formats one with
  \<^verbatim>\<open>str(e)\<close> the rendering is taken from the environment (see \<open>env\<close> below).
\<close>

datatype pyexc =
    ValueError
  | TypeError
  | AttributeError
  | ZeroDivisionError
  | KeyError
  | JSONDecodeError string
  | ExternalError string
  | HTTPException nat string

section \<open>DateNormalizer: \<^verbatim>\<open>normalize_date\<close>\<close>

text \<open>The body of the \<^verbatim>\<open>try\<close> block; \<^verbatim>\<open>int()\<close> is the only operation that can raise.\<close>

definition normalize_date_try :: "string \<Rightarrow> pyexc + string" where
  "normalize_date_try date_str =
     (case split_on (CHR ''-'') (replace ''.'' ''-'' (replace ''/'' ''-'' date_str)) of
        [p0, p1, p2] \<Rightarrow>
          (let day = zfill 2 p0;
               month = zfill 2 p1;
               year = (if length p2 = 2 then ''20'' @ p2 else p2)
           in case py_int day of
                None \<Rightarrow> Inl ValueError
              | Some d \<Rightarrow>
                  if 1 \<le> d \<and> d \<le> 31 then
                    (case py_int month of
                       None \<Rightarrow> Inl ValueError
                     | Some m \<Rightarrow>
                         if 1 \<le> m \<and> m \<le> 12 then
                           (case py_int year of
                              None \<Rightarrow> Inl ValueError
                            | Some y \<Rightarrow>
                                if 2024 \<le> y \<and> y \<le> 2026
                                then Inr (day @ ''-'' @ month @ ''-'' @ year)
                                else Inr [])
                         else Inr [])
                  else Inr [])
      | _ \<Rightarrow> Inr [])"

text \<open>The bare \<^verbatim>\<open>except\<close> turns every exception into the empty string.\<close>

definition normalize_date :: "string \<Rightarrow> string" where
  "normalize_date date_str =
     (case normalize_date_try date_str of Inl e \<Rightarrow> [] | Inr r \<Rightarrow> r)"

text \<open>
  The words of the specification for a well-formed input: the numeric value of a digit
  string, the zero-padded two-digit field and the year expanded to four digits.
\<close>

definition spec_value :: "string \<Rightarrow> nat" where
  "spec_value ds = foldl (\<lambda>a c. 10 * a + digit_val c) 0 ds"

definition spec_pad2 :: "string \<Rightarrow> string" where
  "spec_pad2 ds = (if length ds = 1 then CHR ''0'' # ds else ds)"

definition spec_expand_year :: "string \<Rightarrow> string" where
  "spec_expand_year ds = (if length ds = 2 then ''20'' @ ds else ds)"

definition spec_date_ok :: "string \<Rightarrow> string \<Rightarrow> string \<Rightarrow> bool" where
  "spec_date_ok d m y =
     (1 \<le> spec_value d \<and> spec_value d \<le> 31 \<and>
      1 \<le> spec_value m \<and> spec_value m \<le> 12 \<and>
      2024 \<le> spec_value (spec_expand_year y) \<and> spec_value (spec_expand_year y) \<le> 2026)"

definition is_sep :: "char \<Rightarrow> bool" where
  "is_sep c = (c = CHR ''-'' \<or> c = CHR ''.'' \<or> c = CHR ''/'')"

section \<open>OrganizationResolver: \<^verbatim>\<open>detect_organization_from_text\<close>\<close>

text \<open>The two constant tables, in the order the dictionaries are written.\<close>

definition ORGANIZATION_MAPPINGS :: "(string \<times> string) list" where
  "ORGANIZATION_MAPPINGS =
     [(''ntpc'', ''NTPC''),
      (''ngel'', ''NTPC''),
      (''green energy'', ''NTPC''),
      (''tanuvas'', ''TANUVAS''),
      (''tamil nadu veterinary'', ''TANUVAS''),
      (''csir'', ''CSIR''),
      (''council of scientific'', ''CSIR''),
      (''nhm'', ''NHM''),
      (''national health mission'', ''NHM''),
      (''aau'', ''AAU''),
      (''assam agricultural'', ''AAU'')]"

definition KNOWN_LAST_DATES :: "(string \<times> string) list" where
  "KNOWN_LAST_DATES =
     [(''NTPC'', ''01-05-2025''),
      (''TANUVAS'', ''15-02-2025''),
      (''CSIR'', ''15-02-2025''),
      (''NHM'', ''31-01-2025''),
      (''AAU'', ''31-01-2025'')]"

text \<open>
  \<^verbatim>\<open>for key, org in ORGANIZATION_MAPPINGS.items(): if key in s: return org\<close>, with
  \<open>None\<close> when the loop falls through.
\<close>

fun first_keyword :: "(string \<times> string) list \<Rightarrow> string \<Rightarrow> string option" where
  "first_keyword [] s = None"
| "first_keyword ((key, org) # rest) s =
     (if contains key s then Some org else first_keyword rest s)"

definition detect_organization_from_text :: "string \<Rightarrow> string \<Rightarrow> string" where
  "detect_organization_from_text text provided_name =
     (if provided_name \<noteq> [] \<and> lower provided_name \<notin> set [''unknown'', ''organization'']
      then
        (let provided_clean = upper (strip provided_name)
         in case first_keyword ORGANIZATION_MAPPINGS (lower provided_clean) of
              Some org \<Rightarrow> org
            | None \<Rightarrow> provided_clean)
      else
        (let text_lower = lower text;
             header = lower (take 500 text)
         in case first_keyword ORGANIZATION_MAPPINGS header of
              Some org_name \<Rightarrow> org_name
            | None \<Rightarrow>
                (case first_keyword ORGANIZATION_MAPPINGS text_lower of
                   Some org_name \<Rightarrow> org_name
                 | None \<Rightarrow>
                     if provided_name \<noteq> [] then provided_name else ''Unknown Organization'')))"

section \<open>The regular expressions of the program\<close>

text \<open>
  Every pattern of the program is a sequence of single-character classes, each taken once
  or under a greedy or lazy counted repetition, with at most one capture group. The matcher
  below is Python's backtracking search for such sequences: alternatives are tried in
  priority order (a greedy repetition takes one more character first, a lazy one stops
  first) and the first complete match wins. It returns the text of the group and the input
  left after the match.
\<close>

datatype rx =
    One "char \<Rightarrow> bool"
  | Rep "char \<Rightarrow> bool" nat "nat option" bool
  | GroupOpen
  | GroupClose

fun rx_match :: "rx list \<Rightarrow> string \<Rightarrow> bool \<Rightarrow> string \<Rightarrow> (string \<times> string) option" where
  "rx_match [] s g acc = Some (rev acc, s)"
| "rx_match (GroupOpen # rs) s g acc = rx_match rs s True []"
| "rx_match (GroupClose # rs) s g acc = rx_match rs s False acc"
| "rx_match (One P # rs) s g acc =
     (case s of
        [] \<Rightarrow> None
      | c # cs \<Rightarrow> if P c then rx_match rs cs g (if g then c # acc else acc) else None)"
| "rx_match (Rep P lo hi greedy # rs) s g acc =
     (if greedy then
        (case (case s of
                 [] \<Rightarrow> None
               | c # cs \<Rightarrow>
                   if P c \<and> hi \<noteq> Some 0
                   then rx_match (Rep P (lo - 1) (map_option (\<lambda>h. h - 1) hi) greedy # rs) cs g
                          (if g then c # acc else acc)
                   else None) of
           Some r \<Rightarrow> Some r
         | None \<Rightarrow> if lo = 0 then rx_match rs s g acc else None)
      else
        (case (if lo = 0 then rx_match rs s g acc else None) of
           Some r \<Rightarrow> Some r
         | None \<Rightarrow>
             (case s of
                [] \<Rightarrow> None
              | c # cs \<Rightarrow>
                  if P c \<and> hi \<noteq> Some 0
                  then rx_match (Rep P (lo - 1) (map_option (\<lambda>h. h - 1) hi) greedy # rs) cs g
                         (if g then c # acc else acc)
                  else None)))"

text \<open>\<^verbatim>\<open>re.search\<close>: the match at the leftmost position that has one; the group's text.\<close>

fun rx_search :: "rx list \<Rightarrow> string \<Rightarrow> string option" where
  "rx_search rs [] = map_option fst (rx_match rs [] False [])"
| "rx_search rs (c # cs) =
     (case rx_match rs (c # cs) False [] of
        Some r \<Rightarrow> Some (fst r)
      | None \<Rightarrow> rx_search rs cs)"

text \<open>
  \<^verbatim>\<open>re.findall\<close> with one group: the group's text of every non-overlapping match, in
  document order; the scan resumes where the previous match ended (one character further
  after an empty match).
\<close>

function rx_findall :: "rx list \<Rightarrow> string \<Rightarrow> string list" where
  "rx_findall rs s =
     (case rx_match rs s False [] of
        Some r \<Rightarrow>
          (if length (snd r) < length s then fst r # rx_findall rs (snd r)
           else (case s of [] \<Rightarrow> [fst r] | c # cs \<Rightarrow> fst r # rx_findall rs cs))
      | None \<Rightarrow> (case s of [] \<Rightarrow> [] | c # cs \<Rightarrow> rx_findall rs cs))"
  by pat_completeness auto
termination
  by (relation "measure (\<lambda>(rs, s). length s)") auto

declare rx_findall.simps [simp del]

text \<open>
  The character classes: a literal letter under \<^verbatim>\<open>re.IGNORECASE\<close>, \<^verbatim>\<open>\d\<close> (\<open>is_digit\<close>),
  \<^verbatim>\<open>[-./]\<close> (\<open>is_sep\<close>), \<^verbatim>\<open>\s\<close> (\<open>is_space\<close>) and \<^verbatim>\<open>.\<close>, which stops at a newline.
\<close>

definition ci :: "char \<Rightarrow> char \<Rightarrow> bool" where
  "ci a c = (lower_char c = lower_char a)"

definition lit :: "string \<Rightarrow> rx list" where
  "lit s = map (\<lambda>a. One (ci a)) s"

definition not_newline :: "char \<Rightarrow> bool" where
  "not_newline c = (c \<noteq> CHR 0x0A)"

definition lazy_dots :: rx where
  "lazy_dots = Rep not_newline 0 None False"

definition spaces :: rx where
  "spaces = Rep is_space 1 None True"

text \<open>\<^verbatim>\<open>\d{1,2}[-./]\d{1,2}[-./]\d{lo,hi}\<close>\<close>

definition date_token :: "nat \<Rightarrow> nat \<Rightarrow> rx list" where
  "date_token lo hi =
     [Rep is_digit 1 (Some 2) True, One is_sep, Rep is_digit 1 (Some 2) True, One is_sep,
      Rep is_digit lo (Some hi) True]"

definition date_group :: "nat \<Rightarrow> nat \<Rightarrow> rx list" where
  "date_group lo hi = [GroupOpen] @ date_token lo hi @ [GroupClose]"

definition date_patterns :: "(rx list \<times> string) list" where
  "date_patterns =
     [(lit ''last'' @ [spaces] @ lit ''date'' @ [lazy_dots] @ date_group 2 4, ''last date keyword''),
      (lit ''closing'' @ [spaces] @ lit ''date'' @ [lazy_dots] @ date_group 2 4, ''closing date''),
      (lit ''submit'' @ [lazy_dots] @ lit ''by'' @ [lazy_dots] @ date_group 2 4, ''submit by''),
      (lit ''application'' @ [lazy_dots] @ lit ''till'' @ [lazy_dots] @ date_group 2 4,
         ''application till''),
      (lit ''deadline'' @ [lazy_dots] @ date_group 2 4, ''deadline''),
      (lit ''before'' @ [lazy_dots] @ date_group 2 4, ''before date''),
      (lit ''within'' @ [lazy_dots] @ date_group 2 4, ''within date''),
      (date_group 4 4 @ [lazy_dots] @ lit ''last'', ''reverse last''),
      (lit ''online'' @ [spaces] @ lit ''application'' @ [lazy_dots] @ date_group 2 4,
         ''online application'')]"

section \<open>FutureDateHeuristic: \<^verbatim>\<open>is_reasonable_future_date\<close>\<close>

text \<open>
  \<^verbatim>\<open>datetime.now()\<close> is an input of the model: the current calendar day as
  (year, month, day). A \<^verbatim>\<open>datetime\<close> built from a date is that day's midnight, so
  \<^verbatim>\<open>now < date_obj\<close> holds exactly when today's date is before the date.
\<close>

type_synonym date = "int \<times> int \<times> int"

definition is_leap :: "int \<Rightarrow> bool" where
  "is_leap y = (y mod 4 = 0 \<and> (y mod 100 \<noteq> 0 \<or> y mod 400 = 0))"

definition days_in_month :: "int \<Rightarrow> int \<Rightarrow> int" where
  "days_in_month y m =
     (if m = 2 then (if is_leap y then 29 else 28)
      else if m \<in> {4, 6, 9, 11} then 30 else 31)"

text \<open>When \<^verbatim>\<open>datetime(year, month, day)\<close> does not raise ValueError.\<close>

definition valid_date :: "date \<Rightarrow> bool" where
  "valid_date d =
     (case d of (y, m, dd) \<Rightarrow>
        1 \<le> y \<and> y \<le> 9999 \<and> 1 \<le> m \<and> m \<le> 12 \<and> 1 \<le> dd \<and> dd \<le> days_in_month y m)"

definition date_less :: "date \<Rightarrow> date \<Rightarrow> bool" where
  "date_less a b =
     (case a of (y1, m1, d1) \<Rightarrow> case b of (y2, m2, d2) \<Rightarrow>
        y1 < y2 \<or> (y1 = y2 \<and> (m1 < m2 \<or> (m1 = m2 \<and> d1 < d2))))"

definition is_reasonable_future_date :: "date \<Rightarrow> string \<Rightarrow> bool" where
  "is_reasonable_future_date now date_str =
     (case map py_int (split_on (CHR ''-'') date_str) of
        [Some day, Some month, Some year] \<Rightarrow>
          valid_date (year, month, day) \<and>
          date_less now (year, month, day) \<and> date_less (year, month, day) (2025, 12, 31)
      | _ \<Rightarrow> False)"

section \<open>LastDateExtractor: \<^verbatim>\<open>extract_last_date_comprehensive\<close>\<close>

text \<open>
  Each of the four methods returns \<open>None\<close> where the Python falls through to the next
  one. Method 1: for each pattern in turn, the last \<^verbatim>\<open>findall\<close> match is normalised.
\<close>

fun keyword_cascade :: "(rx list \<times> string) list \<Rightarrow> string \<Rightarrow> (string \<times> string) option" where
  "keyword_cascade [] text = None"
| "keyword_cascade ((pattern, source) # rest) text =
     (let matches = rx_findall pattern text
      in if matches \<noteq> [] then
           (let normalized = normalize_date (last matches)
            in if normalized \<noteq> [] then Some (normalized, source)
               else keyword_cascade rest text)
         else keyword_cascade rest text)"

text \<open>Method 2: the first date-shaped token of each line that holds a keyword.\<close>

definition line_keywords :: "string list" where
  "line_keywords = [''last date'', ''closing'', ''deadline'', ''till'']"

fun section_scan :: "string list \<Rightarrow> (string \<times> string) option" where
  "section_scan [] = None"
| "section_scan (line # rest) =
     (if (\<exists>keyword \<in> set line_keywords. contains keyword (lower line)) then
        (case rx_search (date_group 2 4) line of
           Some date_match \<Rightarrow>
             (let normalized = normalize_date date_match
              in if normalized \<noteq> [] then Some (normalized, ''section scan'')
                 else section_scan rest)
         | None \<Rightarrow> section_scan rest)
      else section_scan rest)"

text \<open>Method 3: the table of known dates.\<close>

definition known_fallback :: "string \<Rightarrow> (string \<times> string) option" where
  "known_fallback org_name =
     (case map_of KNOWN_LAST_DATES org_name of
        Some d \<Rightarrow> Some (d, ''known fallback'')
      | None \<Rightarrow> None)"

text \<open>Method 4: the first date with a four-digit year that is a reasonable future date.\<close>

fun heuristic_scan :: "date \<Rightarrow> string list \<Rightarrow> (string \<times> string) option" where
  "heuristic_scan now [] = None"
| "heuristic_scan now (date_str # rest) =
     (let normalized = normalize_date date_str
      in if normalized \<noteq> [] \<and> is_reasonable_future_date now normalized
         then Some (normalized, ''heuristic scan'')
         else heuristic_scan now rest)"

definition extract_last_date_comprehensive :: "date \<Rightarrow> string \<Rightarrow> string \<Rightarrow> string \<times> string" where
  "extract_last_date_comprehensive now text org_name =
     (case keyword_cascade date_patterns text of
        Some r \<Rightarrow> r
      | None \<Rightarrow>
          (case section_scan (split_on (CHR 0x0A) text) of
             Some r \<Rightarrow> r
           | None \<Rightarrow>
               (case known_fallback org_name of
                  Some r \<Rightarrow> r
                | None \<Rightarrow>
                    (case heuristic_scan now (rx_findall (date_group 4 4) text) of
                       Some r \<Rightarrow> r
                     | None \<Rightarrow> ([], ''not found'')))))"

section \<open>Parsed JSON and Python dictionaries\<close>

text \<open>
  What \<^verbatim>\<open>json.loads\<close> returns. An object is a Python dictionary: an association list
  in insertion order with distinct keys, read with \<open>map_of\<close> and written with
  \<open>AList.update\<close> (an existing key keeps its place, a new key goes to the end). Of a
  fractional number only its being zero is ever observed.
\<close>

datatype json =
    JNull
  | JBool bool
  | JInt int
  | JFloat real
  | JStr string
  | JArr "json list"
  | JObj "(string \<times> json) list"

type_synonym dict = "(string \<times> json) list"

text \<open>Python's truth value of an object, as \<^verbatim>\<open>not x\<close> tests it.\<close>

fun truthy :: "json \<Rightarrow> bool" where
  "truthy JNull = False"
| "truthy (JBool b) = b"
| "truthy (JInt i) = (i \<noteq> 0)"
| "truthy (JFloat r) = (r \<noteq> 0)"
| "truthy (JStr s) = (s \<noteq> [])"
| "truthy (JArr xs) = (xs \<noteq> [])"
| "truthy (JObj kvs) = (kvs \<noteq> [])"

section \<open>The environment\<close>

text \<open>
  What the program takes from outside: whether the completion client was configured at
  start-up, the current day, the standard library's \<^verbatim>\<open>json.loads\<close> (\<open>Inl\<close> carries
  the message of its JSONDecodeError) and the text \<^verbatim>\<open>str(e)\<close> of an exception.
\<close>

record env =
  mistral_client :: bool
  now :: date
  json_loads :: "string \<Rightarrow> string + json"
  str_exc :: "pyexc \<Rightarrow> string"

section \<open>AIExtractionOrchestrator: \<^verbatim>\<open>analyze_with_ultra_strict_ai\<close>\<close>

text \<open>
  A coverage metric is either a literal text or the text
  \<^verbatim>\<open>f"{(a / b * 100):.0f}%"\<close> of a floating-point computation, kept as \<open>Percent a b\<close>.
\<close>

datatype coverage = Literal string | Percent nat nat

record quality =
  last_date_coverage :: coverage
  salary_coverage :: coverage
  auto_last_date :: string
  date_source :: string

record org_result =
  organization :: string
  positions :: "dict list"
  total_positions :: nat
  extraction_quality :: quality

definition required_fields :: "string list" where
  "required_fields =
     [''advertisement_number'', ''advertisement_date'', ''post_name'',
      ''vacancies'', ''last_date'', ''salary'', ''location'', ''age_limit'',
      ''category'', ''qualification'', ''mandatory'', ''specialization'',
      ''experience_years'', ''remarks'']"

text \<open>\<^verbatim>\<open>for field in required_fields: if field not in pos: pos[field] = ""\<close>\<close>

definition ensure_fields :: "dict \<Rightarrow> dict" where
  "ensure_fields pos =
     foldl (\<lambda>p field. if map_of p field = None then AList.update field (JStr []) p else p)
       pos required_fields"

text \<open>
  \<^verbatim>\<open>not v or 'check' in v.lower() or 'manual' in v.lower()\<close>: a value that is true and
  not a string has no \<^verbatim>\<open>lower\<close>.
\<close>

definition wants_autofill :: "json \<Rightarrow> pyexc + bool" where
  "wants_autofill v =
     (if \<not> truthy v then Inr True
      else (case v of
              JStr s \<Rightarrow> Inr (contains ''check'' (lower s) \<or> contains ''manual'' (lower s))
            | _ \<Rightarrow> Inl AttributeError))"

text \<open>\<^verbatim>\<open>not v or 'check' in v.lower()\<close>, the test that guards the salary warning.\<close>

definition salary_warning :: "json \<Rightarrow> pyexc + bool" where
  "salary_warning v =
     (if \<not> truthy v then Inr True
      else (case v of
              JStr s \<Rightarrow> Inr (contains ''check'' (lower s))
            | _ \<Rightarrow> Inl AttributeError))"

text \<open>The auto-fill of the last date of one record that has all its fields.\<close>

definition autofill_last_date :: "string \<Rightarrow> string \<Rightarrow> dict \<Rightarrow> pyexc + dict" where
  "autofill_last_date auto_date detected_org pos =
     (case map_of pos ''last_date'' of
        None \<Rightarrow> Inl KeyError
      | Some v \<Rightarrow>
          (case wants_autofill v of
             Inl e \<Rightarrow> Inl e
           | Inr fill \<Rightarrow>
               if fill then
                 (if auto_date \<noteq> [] then Inr (AList.update ''last_date'' (JStr auto_date) pos)
                  else (case map_of KNOWN_LAST_DATES detected_org of
                          Some known \<Rightarrow> Inr (AList.update ''last_date'' (JStr known) pos)
                        | None \<Rightarrow> Inr pos))
               else Inr pos))"

text \<open>
  The body of \<^verbatim>\<open>for pos in positions\<close> for one element. On an element that is not an
  object the membership test, the item assignment or the subscript raises TypeError.
\<close>

definition repair_position :: "string \<Rightarrow> string \<Rightarrow> json \<Rightarrow> pyexc + dict" where
  "repair_position auto_date detected_org pos =
     (case pos of
        JObj kvs \<Rightarrow>
          (case autofill_last_date auto_date detected_org (ensure_fields kvs) of
             Inl e \<Rightarrow> Inl e
           | Inr filled \<Rightarrow>
               (case map_of filled ''salary'' of
                  None \<Rightarrow> Inl KeyError
                | Some v \<Rightarrow>
                    (case salary_warning v of Inl e \<Rightarrow> Inl e | Inr w \<Rightarrow> Inr filled)))
      | _ \<Rightarrow> Inl TypeError)"

fun repair_all :: "string \<Rightarrow> string \<Rightarrow> json list \<Rightarrow> pyexc + dict list" where
  "repair_all auto_date detected_org [] = Inr []"
| "repair_all auto_date detected_org (pos # rest) =
     (case repair_position auto_date detected_org pos of
        Inl e \<Rightarrow> Inl e
      | Inr p \<Rightarrow>
          (case repair_all auto_date detected_org rest of
             Inl e \<Rightarrow> Inl e
           | Inr ps \<Rightarrow> Inr (p # ps)))"

text \<open>
  What \<^verbatim>\<open>for pos in positions\<close> iterates over: the elements of an array, the keys of an
  object, the characters of a string; anything else is not iterable.
\<close>

definition iter_positions :: "json \<Rightarrow> pyexc + json list" where
  "iter_positions parsed =
     (case parsed of
        JArr xs \<Rightarrow> Inr xs
      | JObj kvs \<Rightarrow> Inr (map (\<lambda>kv. JStr (fst kv)) kvs)
      | JStr s \<Rightarrow> Inr (map (\<lambda>c. JStr [c]) s)
      | _ \<Rightarrow> Inl TypeError)"

text \<open>\<^verbatim>\<open>sum(1 for p in positions if not p[field])\<close>\<close>

fun count_missing :: "string \<Rightarrow> dict list \<Rightarrow> pyexc + nat" where
  "count_missing field [] = Inr 0"
| "count_missing field (p # ps) =
     (case map_of p field of
        None \<Rightarrow> Inl KeyError
      | Some v \<Rightarrow>
          (case count_missing field ps of
             Inl e \<Rightarrow> Inl e
           | Inr n \<Rightarrow> Inr (if truthy v then n else Suc n)))"

text \<open>
  The cleaning of the response: code fences removed, then the span of
  \<^verbatim>\<open>re.search(r'\[.*\]', result_text, re.DOTALL)\<close> when there is one.
\<close>

definition bracket_span :: "rx list" where
  "bracket_span =
     [GroupOpen, One (\<lambda>c. c = CHR ''[''), Rep (\<lambda>c. True) 0 None True,
      One (\<lambda>c. c = CHR '']''), GroupClose]"

definition clean_response :: "string \<Rightarrow> string" where
  "clean_response content =
     (let result_text = strip (replace ''```'' [] (replace ''```json'' [] (strip content)))
      in case rx_search bracket_span result_text of
           Some json_match \<Rightarrow> json_match
         | None \<Rightarrow> result_text)"

text \<open>
  The \<^verbatim>\<open>try\<close> block. \<open>reply\<close> is the outcome of the completion call for the prompt
  built from the text, the organization and the detected date: the content of the first
  choice, or the exception the call raised. The prompt itself only feeds that call and is
  not modelled.
\<close>

definition analyze_try ::
  "env \<Rightarrow> string \<Rightarrow> string \<Rightarrow> string \<Rightarrow> (pyexc + string) \<Rightarrow> pyexc + org_result" where
  "analyze_try env detected_org auto_date source reply =
     (case reply of
        Inl e \<Rightarrow> Inl e
      | Inr content \<Rightarrow>
          (case json_loads env (clean_response content) of
             Inl msg \<Rightarrow> Inl (JSONDecodeError msg)
           | Inr parsed \<Rightarrow>
               (case iter_positions parsed of
                  Inl e \<Rightarrow> Inl e
                | Inr elems \<Rightarrow>
                    (case repair_all auto_date detected_org elems of
                       Inl e \<Rightarrow> Inl e
                     | Inr ps \<Rightarrow>
                         (case count_missing ''last_date'' ps of
                            Inl e \<Rightarrow> Inl e
                          | Inr missing_dates \<Rightarrow>
                              (case count_missing ''salary'' ps of
                                 Inl e \<Rightarrow> Inl e
                               | Inr missing_salary \<Rightarrow>
                                   if length ps = 0 then Inl ZeroDivisionError
                                   else Inr \<lparr>organization = detected_org,
                                          positions = ps,
                                          total_positions = length ps,
                                          extraction_quality =
                                            \<lparr>last_date_coverage =
                                               Percent (length ps - missing_dates) (length ps),
                                             salary_coverage =
                                               Percent (length ps - missing_salary) (length ps),
                                             auto_last_date = auto_date,
                                             date_source = source\<rparr>\<rparr>))))))"

definition analyze_with_ultra_strict_ai ::
  "env \<Rightarrow> string \<Rightarrow> string \<Rightarrow> (pyexc + string) \<Rightarrow> pyexc + org_result" where
  "analyze_with_ultra_strict_ai env text org_name reply =
     (if \<not> mistral_client env then Inl (HTTPException 503 ''Mistral AI not configured'')
      else
        (let detected_org = detect_organization_from_text text org_name;
             found = extract_last_date_comprehensive (now env) text detected_org
         in case analyze_try env detected_org (fst found) (snd found) reply of
              Inr r \<Rightarrow> Inr r
            | Inl (JSONDecodeError msg) \<Rightarrow>
                Inl (HTTPException 500
                  (''AI response parsing failed: '' @ str_exc env (JSONDecodeError msg)))
            | Inl e \<Rightarrow> Inl (HTTPException 500 (''Analysis failed: '' @ str_exc env e))))"

section \<open>Text extraction: \<^verbatim>\<open>extract_text_from_pdf\<close>\<close>

text \<open>
  An uploaded file. The PDF library is a collaborator: \<open>pdf\<close> is either the message of
  the exception it raises, or the text of each page in order. \<open>completion\<close> is what the
  completion service answers if the orchestrator is run on this document.
\<close>

record upload =
  filename :: string
  pdf :: "string + string list"
  completion :: "pyexc + string"

fun join :: "string \<Rightarrow> string list \<Rightarrow> string" where
  "join sep [] = []"
| "join sep [x] = x"
| "join sep (x # y # ys) = x @ sep @ join sep (y # ys)"

text \<open>\<^verbatim>\<open>f"\n{'='*60}\nPAGE {page_num + 1}\n{'='*60}\n{page_text}"\<close>\<close>

definition page_block :: "nat \<Rightarrow> string \<Rightarrow> string" where
  "page_block page_num page_text =
     [CHR 0x0A] @ replicate 60 (CHR ''='') @ [CHR 0x0A] @ ''PAGE '' @ str_nat (page_num + 1) @
     [CHR 0x0A] @ replicate 60 (CHR ''='') @ [CHR 0x0A] @ page_text"

definition extract_text_from_pdf :: "upload \<Rightarrow> pyexc + string" where
  "extract_text_from_pdf file =
     (case pdf file of
        Inl msg \<Rightarrow> Inl (HTTPException 400 (''PDF extraction failed: '' @ msg))
      | Inr pages \<Rightarrow>
          Inr (join [CHR 0x0A] (map (\<lambda>(page_num, page_text). page_block page_num page_text)
                 (enumerate 0 pages))))"

section \<open>ReportAssembler: the batch endpoint \<^verbatim>\<open>analyze_forms\<close>\<close>

definition required_orgs :: "string list" where
  "required_orgs = [''AAU'', ''CSIR'', ''NHM'', ''NTPC'', ''TANUVAS'']"

text \<open>The three kinds of placeholder result, with the records as the source writes them.\<close>

definition manual_position :: dict where
  "manual_position =
     [(''advertisement_number'', JStr ''CHECK PDF MANUALLY''),
      (''advertisement_date'', JStr ''CHECK PDF MANUALLY''),
      (''post_name'', JStr ''CHECK PDF MANUALLY''),
      (''vacancies'', JStr ''CHECK PDF MANUALLY''),
      (''last_date'', JStr ''CHECK PDF MANUALLY''),
      (''salary'', JStr ''CHECK PDF MANUALLY''),
      (''location'', JStr ''CHECK PDF MANUALLY''),
      (''age_limit'', JStr ''CHECK PDF MANUALLY''),
      (''category'', JStr ''CHECK PDF MANUALLY''),
      (''qualification'', JStr ''CHECK PDF MANUALLY''),
      (''mandatory'', JStr ''CHECK PDF MANUALLY''),
      (''specialization'', JStr ''CHECK PDF MANUALLY''),
      (''experience_years'', JStr ''CHECK PDF MANUALLY''),
      (''remarks'', JStr (''Document was empty or unreadable. '' @
                          ''Please verify all details from the original PDF.''))]"

definition manual_placeholder :: "string \<Rightarrow> org_result" where
  "manual_placeholder detected_org =
     \<lparr>organization = detected_org,
      positions = [manual_position],
      total_positions = 1,
      extraction_quality =
        \<lparr>last_date_coverage = Literal ''0%'', salary_coverage = Literal ''0%'',
         auto_last_date = [], date_source = ''empty PDF''\<rparr>\<rparr>"

definition error_position :: "string \<Rightarrow> dict" where
  "error_position err =
     [(''advertisement_number'', JStr ''EXTRACTION FAILED''),
      (''advertisement_date'', JStr []),
      (''post_name'', JStr ''EXTRACTION FAILED - See error''),
      (''vacancies'', JStr []),
      (''last_date'', JStr []),
      (''salary'', JStr []),
      (''location'', JStr []),
      (''age_limit'', JStr []),
      (''category'', JStr []),
      (''qualification'', JStr []),
      (''mandatory'', JStr []),
      (''specialization'', JStr []),
      (''experience_years'', JStr []),
      (''remarks'', JStr (''Error during extraction: '' @ err))]"

definition error_placeholder :: "string \<Rightarrow> string \<Rightarrow> org_result" where
  "error_placeholder detected_org err =
     \<lparr>organization = detected_org,
      positions = [error_position err],
      total_positions = 1,
      extraction_quality =
        \<lparr>last_date_coverage = Literal ''0%'', salary_coverage = Literal ''0%'',
         auto_last_date = [], date_source = ''error''\<rparr>\<rparr>"

definition missing_position :: "string \<Rightarrow> dict" where
  "missing_position req_org =
     [(''advertisement_number'', JStr (req_org @ '' - NOT PROCESSED'')),
      (''advertisement_date'', JStr []),
      (''post_name'', JStr (req_org @ '' - PDF not uploaded or failed'')),
      (''vacancies'', JStr []),
      (''last_date'',
         JStr (case map_of KNOWN_LAST_DATES req_org of Some d \<Rightarrow> d | None \<Rightarrow> [])),
      (''salary'', JStr []),
      (''location'', JStr []),
      (''age_limit'', JStr []),
      (''category'', JStr []),
      (''qualification'', JStr []),
      (''mandatory'', JStr []),
      (''specialization'', JStr []),
      (''experience_years'', JStr []),
      (''remarks'', JStr (''PDF for '' @ req_org @ '' was not uploaded or failed to process. '' @
                          ''Please fill manually from original PDF.''))]"

definition missing_placeholder :: "string \<Rightarrow> org_result" where
  "missing_placeholder req_org =
     \<lparr>organization = req_org,
      positions = [missing_position req_org],
      total_positions = 1,
      extraction_quality =
        \<lparr>last_date_coverage = Literal ''0%'', salary_coverage = Literal ''0%'',
         auto_last_date = [], date_source = ''not uploaded''\<rparr>\<rparr>"

text \<open>The first required organization whose lower-cased name occurs in the file name.\<close>

definition org_from_filename :: "string \<Rightarrow> string" where
  "org_from_filename fname =
     (case find (\<lambda>org. contains (lower org) (lower fname)) required_orgs of
        Some org \<Rightarrow> org
      | None \<Rightarrow> [])"

text \<open>\<^verbatim>\<open>f"Organization_{idx+1}"\<close>\<close>

definition numbered_org :: "nat \<Rightarrow> string" where
  "numbered_org idx = ''Organization_'' @ str_nat (idx + 1)"

text \<open>
  The hints are the list parsed from the \<^verbatim>\<open>organizations\<close> parameter (empty when the
  parameter is absent or does not parse), taken here as a list of strings.

  The body of the \<^verbatim>\<open>try\<close> for one PDF. The first component tells whether the
  completion service was called: the orchestrator calls it once, unless the client is not
  configured.
\<close>

definition process_document ::
  "env \<Rightarrow> string list \<Rightarrow> nat \<Rightarrow> upload \<Rightarrow> bool \<times> (pyexc + org_result)" where
  "process_document env org_names idx file =
     (case extract_text_from_pdf file of
        Inl e \<Rightarrow> (False, Inl e)
      | Inr pdf_text \<Rightarrow>
          (let from_filename = org_from_filename (filename file);
               provided_name = (if idx < length org_names then org_names ! idx else from_filename)
           in if length (strip pdf_text) < 100 then
                (let detected_org =
                       (if provided_name \<noteq> [] then provided_name
                        else if from_filename \<noteq> [] then from_filename
                        else numbered_org idx)
                 in (False, Inr (manual_placeholder detected_org)))
              else (mistral_client env,
                    analyze_with_ultra_strict_ai env pdf_text provided_name (completion file))))"

text \<open>
  The state of the loop over the files: the accumulated results, the set of processed
  organizations, and a log of the documents for which the orchestrator was called.
\<close>

record batch =
  analyzed_results :: "org_result list"
  processed_orgs :: "string set"
  ai_calls :: "nat list"

text \<open>One iteration: a file that is not a PDF is skipped, an exception gives the error placeholder.\<close>

definition process_file :: "env \<Rightarrow> string list \<Rightarrow> nat \<Rightarrow> upload \<Rightarrow> batch \<Rightarrow> batch" where
  "process_file env org_names idx file st =
     (if \<not> endswith (filename file) ''.pdf'' then st
      else
        (case process_document env org_names idx file of
           (called, Inr analysis) \<Rightarrow>
             \<lparr>analyzed_results = analyzed_results st @ [analysis],
              processed_orgs = insert (organization analysis) (processed_orgs st),
              ai_calls = ai_calls st @ (if called then [idx] else [])\<rparr>
         | (called, Inl e) \<Rightarrow>
             (let hint = (if idx < length org_names then org_names ! idx else []);
                  detected_org = (if hint \<noteq> [] then hint else numbered_org idx)
              in \<lparr>analyzed_results =
                     analyzed_results st @ [error_placeholder detected_org (str_exc env e)],
                   processed_orgs = insert detected_org (processed_orgs st),
                   ai_calls = ai_calls st @ (if called then [idx] else [])\<rparr>)))"

fun process_files :: "env \<Rightarrow> string list \<Rightarrow> nat \<Rightarrow> upload list \<Rightarrow> batch \<Rightarrow> batch" where
  "process_files env org_names idx [] st = st"
| "process_files env org_names idx (file # rest) st =
     process_files env org_names (Suc idx) rest (process_file env org_names idx file st)"

text \<open>The placeholders for the required organizations that were not processed.\<close>

definition backfill :: "string set \<Rightarrow> org_result list" where
  "backfill processed =
     map missing_placeholder (filter (\<lambda>req_org. req_org \<notin> processed) required_orgs)"

text \<open>\<^verbatim>\<open>required_orgs.index(org)\<close>, or 999 for any other organization.\<close>

fun index_of :: "string \<Rightarrow> string list \<Rightarrow> nat option" where
  "index_of x [] = None"
| "index_of x (y # ys) = (if x = y then Some 0 else map_option Suc (index_of x ys))"

definition org_sort_key :: "org_result \<Rightarrow> nat" where
  "org_sort_key item =
     (case index_of (organization item) required_orgs of Some i \<Rightarrow> i | None \<Rightarrow> 999)"

text \<open>
  The endpoint up to the list handed to the spreadsheet writer: \<open>analyzed_results\<close> of
  the returned state is that list, after the (stable) sort.
\<close>

definition analyze_forms :: "env \<Rightarrow> upload list \<Rightarrow> string list \<Rightarrow> pyexc + batch" where
  "analyze_forms env files org_names =
     (if \<not> mistral_client env then Inl (HTTPException 503 ''Mistral AI not configured'')
      else if files = [] then Inl (HTTPException 400 ''No files uploaded'')
      else
        (let st = process_files env org_names 0 files
                    \<lparr>analyzed_results = [], processed_orgs = {}, ai_calls = []\<rparr>
         in Inr (st\<lparr>analyzed_results :=
                      sort_key org_sort_key
                        (analyzed_results st @ backfill (processed_orgs st))\<rparr>)))"

section \<open>An environment for the worked examples\<close>

text \<open>
  A stand-in for \<^verbatim>\<open>json.loads\<close> that knows one payload, an array of two records, and
  rejects everything else; and a rendering of exceptions in the manner of the libraries.
\<close>

definition example_payload :: string where
  \<open>example_payload =
     ''[{"post_name": "Engineer", "grade": "E1", "last_date": "check pdf"}, '' @
     ''{"post_name": "Clerk", "last_date": "20-03-2025", "salary": "Rs 30,000"}]''\<close>

definition example_records :: "json list" where
  "example_records =
     [JObj [(''post_name'', JStr ''Engineer''), (''grade'', JStr ''E1''),
            (''last_date'', JStr ''check pdf'')],
      JObj [(''post_name'', JStr ''Clerk''), (''last_date'', JStr ''20-03-2025''),
            (''salary'', JStr ''Rs 30,000'')]]"

definition example_loads :: "string \<Rightarrow> string + json" where
  "example_loads s =
     (if s = example_payload then Inr (JArr example_records)
      else Inl ''Expecting value: line 1 column 1 (char 0)'')"

definition example_str_exc :: "pyexc \<Rightarrow> string" where
  "example_str_exc e =
     (case e of
        HTTPException code detail \<Rightarrow> str_nat code @ '': '' @ detail
      | JSONDecodeError msg \<Rightarrow> msg
      | ExternalError msg \<Rightarrow> msg
      | _ \<Rightarrow> ''error'')"

definition example_env :: env where
  "example_env =
     \<lparr>mistral_client = True, now = (2025, 1, 15), json_loads = example_loads,
      str_exc = example_str_exc\<rparr>"

definition example_text :: string where
  "example_text = ''NTPC Limited. Recruitment of Engineers. Last Date: 01-05-2025''"

definition example_reply :: string where
  "example_reply = ''```json'' @ [CHR 0x0A] @ example_payload @ [CHR 0x0A] @ ''```''"

section \<open>Notions used to state the properties\<close>



text \<open>
  A pattern of the keyword cascade succeeds on a text when it has a match and the last of
  its matches normalises to a date.
\<close>

definition pattern_hit :: "string \<Rightarrow> rx list \<times> string \<Rightarrow> bool" where
  "pattern_hit text ps =
     (rx_findall (fst ps) text \<noteq> [] \<and> normalize_date (last (rx_findall (fst ps) text)) \<noteq> [])"

text \<open>A notice with two unrelated earlier dates and a last-date phrase.\<close>

definition notice_text :: string where
  "notice_text = ''Notice dated 10-01-2025. Walk-in on 20-02-2025. Last date: 01-05-2025''"

text \<open>
  The repair of the last date in the words of the specification: a value counts as punted
  when it is empty (false in Python's sense) or a string holding \<open>check\<close> or \<open>manual\<close> in
  any case; a punted value is replaced by the detected date when there is one, else by the
  known date of the organization when there is one.
\<close>

definition spec_punted :: "json \<Rightarrow> bool" where
  "spec_punted v =
     (case v of
        JStr s \<Rightarrow> s = [] \<or> contains ''check'' (lower s) \<or> contains ''manual'' (lower s)
      | _ \<Rightarrow> \<not> truthy v)"

definition spec_repaired :: "string \<Rightarrow> string \<Rightarrow> json \<Rightarrow> json" where
  "spec_repaired auto_date org v =
     (if spec_punted v then
        (if auto_date \<noteq> [] then JStr auto_date
         else (case map_of KNOWN_LAST_DATES org of Some known \<Rightarrow> JStr known | None \<Rightarrow> v))
      else v)"

text \<open>The value a parsed record has for a field once missing fields are filled in.\<close>

definition field_or_empty :: "dict \<Rightarrow> string \<Rightarrow> json" where
  "field_or_empty kvs field = (case map_of kvs field of Some v \<Rightarrow> v | None \<Rightarrow> JStr [])"

definition keys :: "dict \<Rightarrow> string set" where
  "keys d = fst ` set d"

text \<open>
  The contribution of one uploaded file to the result list, as a function of that file,
  its index and the hints alone: nothing for a file that is not a PDF, the analysis when
  the processing returns one, the error placeholder when it raises. \<open>failed_org\<close> is the
  organization name the handler gives a failed document.
\<close>

definition failed_org :: "string list \<Rightarrow> nat \<Rightarrow> string" where
  "failed_org org_names idx =
     (if idx < length org_names \<and> org_names ! idx \<noteq> [] then org_names ! idx
      else numbered_org idx)"

definition doc_entry :: "env \<Rightarrow> string list \<Rightarrow> nat \<Rightarrow> upload \<Rightarrow> org_result list" where
  "doc_entry env org_names idx file =
     (if \<not> endswith (filename file) ''.pdf'' then []
      else (case snd (process_document env org_names idx file) of
              Inr analysis \<Rightarrow> [analysis]
            | Inl e \<Rightarrow> [error_placeholder (failed_org org_names idx) (str_exc env e)]))"

definition doc_called :: "env \<Rightarrow> string list \<Rightarrow> nat \<times> upload \<Rightarrow> bool" where
  "doc_called env org_names p =
     (endswith (filename (snd p)) ''.pdf'' \<and> fst (process_document env org_names (fst p) (snd p)))"

text \<open>Uploads for the worked examples.\<close>

definition unreadable_upload :: upload where
  "unreadable_upload =
     \<lparr>filename = ''scan.pdf'', pdf = Inl ''EOF marker not found'', completion = Inr []\<rparr>"

definition empty_upload :: "string \<Rightarrow> upload" where
  "empty_upload name = \<lparr>filename = name, pdf = Inr [], completion = Inr []\<rparr>"





section \<open>Properties of the string functions\<close>

lemma replace_single: "replace [a] [b] s = map (\<lambda>c. if c = a then b else c) s"
  by (induction s) auto

lemma split_on_nosep: "d \<notin> set s \<Longrightarrow> split_on d s = [s]"
  by (induction s) auto

lemma split_on_append: "d \<notin> set xs \<Longrightarrow> split_on d (xs @ d # ys) = xs # split_on d ys"
  by (induction xs) auto

lemma is_digit_cases:
  "is_digit c \<Longrightarrow> \<not> is_space c \<and> \<not> is_sep c \<and> c \<noteq> CHR ''+'' \<and> c \<noteq> CHR ''_''"
  by (auto simp: is_digit_def is_space_def is_sep_def)

lemma parse_digits_digits:
  "\<forall>c\<in>set ds. is_digit c \<Longrightarrow> ds \<noteq> [] \<or> b \<Longrightarrow>
   parse_digits acc b ds = Some (foldl (\<lambda>a c. 10 * a + digit_val c) acc ds)"
  by (induction ds arbitrary: acc b) auto

lemma dropWhile_none: "\<forall>c\<in>set t. \<not> P c \<Longrightarrow> dropWhile P t = t"
  by (cases t) auto

lemma strip_id:
  "\<forall>c\<in>set s. \<not> is_space c \<Longrightarrow> strip s = s"
  by (simp add: strip_def dropWhile_none)

lemma py_int_digits:
  assumes "ds \<noteq> []" "\<forall>c\<in>set ds. is_digit c"
  shows "py_int ds = Some (int (spec_value ds))"
proof -
  obtain c cs where ds: "ds = c # cs" using assms(1) by (cases ds) auto
  have s: "strip ds = ds" using assms(2) is_digit_cases by (intro strip_id) blast
  have c: "c \<noteq> CHR ''-''" "c \<noteq> CHR ''+''"
    using assms(2) is_digit_cases[of c] by (auto simp: ds is_sep_def)
  have "parse_digits 0 False ds = Some (spec_value ds)"
    using parse_digits_digits[OF assms(2), of False 0] assms(1) by (simp add: spec_value_def)
  then show ?thesis using s c by (simp add: py_int_def ds)
qed


lemma digits_replace:
  "\<forall>c\<in>set ds. is_digit c \<Longrightarrow> map (\<lambda>c. if c = a then b else c) ds = ds" if "\<not> is_digit a"
  using that by (induction ds) auto

lemma zfill_digits:
  assumes "\<forall>c\<in>set ds. is_digit c" "length ds = 1 \<or> length ds = 2"
  shows "zfill 2 ds = spec_pad2 ds"
proof (cases ds)
  case Nil then show ?thesis using assms by simp
next
  case (Cons c cs)
  then have "c \<noteq> CHR ''+'' \<and> c \<noteq> CHR ''-''"
    using assms(1) is_digit_cases[of c] by (auto simp: is_sep_def)
  then show ?thesis using assms(2) Cons by (auto simp: zfill_def spec_pad2_def)
qed

lemma spec_value_pad2:
  "spec_value (spec_pad2 ds) = spec_value ds"
  by (simp add: spec_pad2_def spec_value_def digit_val_def)

lemma spec_pad2_digits:
  "\<forall>c\<in>set ds. is_digit c \<Longrightarrow> ds \<noteq> [] \<Longrightarrow>
   spec_pad2 ds \<noteq> [] \<and> (\<forall>c\<in>set (spec_pad2 ds). is_digit c)"
  by (auto simp: spec_pad2_def is_digit_def)

lemma spec_expand_year_digits:
  "\<forall>c\<in>set ds. is_digit c \<Longrightarrow> ds \<noteq> [] \<Longrightarrow>
   spec_expand_year ds \<noteq> [] \<and> (\<forall>c\<in>set (spec_expand_year ds). is_digit c)"
  by (auto simp: spec_expand_year_def is_digit_def)

lemma split_date:
  assumes "\<forall>c\<in>set d. is_digit c" "\<forall>c\<in>set m. is_digit c" "\<forall>c\<in>set y. is_digit c"
    and "is_sep s1" "is_sep s2"
  shows "split_on (CHR ''-'') (replace ''.'' ''-'' (replace ''/'' ''-'' (d @ [s1] @ m @ [s2] @ y)))
         = [d, m, y]"
proof -
  have nd: "\<not> is_digit (CHR ''/'')" "\<not> is_digit (CHR ''.'')" by (simp_all add: is_digit_def)
  have r: "\<And>ds. \<forall>c\<in>set ds. is_digit c \<Longrightarrow>
     map (\<lambda>c. if c = CHR ''.'' then CHR ''-'' else c) (map (\<lambda>c. if c = CHR ''/'' then CHR ''-'' else c) ds) = ds"
    using nd by (simp add: digits_replace)
  have s: "\<And>s. is_sep s \<Longrightarrow> (if (if s = CHR ''/'' then CHR ''-'' else s) = CHR ''.'' then CHR ''-''
      else (if s = CHR ''/'' then CHR ''-'' else s)) = CHR ''-''"
    by (auto simp: is_sep_def)
  have n: "\<And>ds. \<forall>c\<in>set ds. is_digit c \<Longrightarrow> CHR ''-'' \<notin> set ds"
    using is_digit_cases by (auto simp: is_sep_def)
  have "replace ''.'' ''-'' (replace ''/'' ''-'' (d @ [s1] @ m @ [s2] @ y))
        = d @ CHR ''-'' # m @ CHR ''-'' # y"
    using assms r s by (simp add: replace_single del: map_map)
  then show ?thesis
    using n[OF assms(1)] n[OF assms(2)] n[OF assms(3)]
    by (simp add: split_on_append split_on_nosep)
qed

text \<open>
  Claim C4. An input \<open>day sep month sep year\<close> with separators among \<open>-\<close>, \<open>.\<close>, \<open>/\<close>,
  a day and a month of one or two digits and a year of two or four digits is normalised to
  the zero-padded \<open>DD-MM-YYYY\<close> string (a two-digit year prefixed with \<open>20\<close>) exactly when
  the day is in 1..31, the month in 1..12 and the expanded year in 2024..2026, and to the
  empty string otherwise; an input that does not split into exactly three parts gives the
  empty string; and an exception raised inside the body is turned into the empty string.
\<close>

theorem normalize_date_canonical:
  "(\<forall>d m y s1 s2.
      (\<forall>c\<in>set (d @ m @ y). is_digit c) \<and> length d \<in> {1, 2} \<and> length m \<in> {1, 2} \<and>
      length y \<in> {2, 4} \<and> is_sep s1 \<and> is_sep s2 \<longrightarrow>
      normalize_date (d @ [s1] @ m @ [s2] @ y) =
        (if spec_date_ok d m y
         then spec_pad2 d @ ''-'' @ spec_pad2 m @ ''-'' @ spec_expand_year y else [])) \<and>
   (\<forall>s. length (split_on (CHR ''-'') (replace ''.'' ''-'' (replace ''/'' ''-'' s))) \<noteq> 3 \<longrightarrow>
      normalize_date s = []) \<and>
   (\<forall>s e. normalize_date_try s = Inl e \<longrightarrow> normalize_date s = [])"
proof (intro conjI allI impI)
  fix d m y s1 s2
  assume h: "(\<forall>c\<in>set (d @ m @ y). is_digit c) \<and> length d \<in> {1, 2} \<and> length m \<in> {1, 2} \<and>
      length y \<in> {2, 4} \<and> is_sep s1 \<and> is_sep s2"
  then have dd: "\<forall>c\<in>set d. is_digit c" and dm: "\<forall>c\<in>set m. is_digit c"
    and dy: "\<forall>c\<in>set y. is_digit c" by auto
  from h have ne: "d \<noteq> []" "m \<noteq> []" "y \<noteq> []" by auto
  have sp: "split_on (CHR ''-'') (replace ''.'' ''-'' (replace ''/'' ''-'' (d @ [s1] @ m @ [s2] @ y)))
         = [d, m, y]"
    using split_date[OF dd dm dy] h by blast
  have zd: "zfill 2 d = spec_pad2 d" using zfill_digits[OF dd] h by auto
  have zm: "zfill 2 m = spec_pad2 m" using zfill_digits[OF dm] h by auto
  have id: "py_int (spec_pad2 d) = Some (int (spec_value d))"
    using py_int_digits[of "spec_pad2 d"] spec_pad2_digits[OF dd ne(1)] by (simp add: spec_value_pad2)
  have im: "py_int (spec_pad2 m) = Some (int (spec_value m))"
    using py_int_digits[of "spec_pad2 m"] spec_pad2_digits[OF dm ne(2)] by (simp add: spec_value_pad2)
  have iy: "py_int (spec_expand_year y) = Some (int (spec_value (spec_expand_year y)))"
    using py_int_digits[of "spec_expand_year y"] spec_expand_year_digits[OF dy ne(3)] by simp
  have ey: "(if length y = 2 then ''20'' @ y else y) = spec_expand_year y"
    by (simp add: spec_expand_year_def)
  show "normalize_date (d @ [s1] @ m @ [s2] @ y) =
        (if spec_date_ok d m y
         then spec_pad2 d @ ''-'' @ spec_pad2 m @ ''-'' @ spec_expand_year y else [])"
    unfolding normalize_date_def normalize_date_try_def sp
    by (simp add: zd zm ey id im iy spec_date_ok_def Let_def)
next
  fix s
  assume "length (split_on (CHR ''-'') (replace ''.'' ''-'' (replace ''/'' ''-'' s))) \<noteq> 3"
  then show "normalize_date s = []"
    by (auto simp: normalize_date_def normalize_date_try_def split: list.splits)
next
  fix s e
  assume "normalize_date_try s = Inl e"
  then show "normalize_date s = []" by (simp add: normalize_date_def)
qed

theorem normalize_date_canonical_witness:
  "normalize_date ''5/3/25'' = ''05-03-2025'' \<and>
   normalize_date ''01.05.2027'' = [] \<and>
   normalize_date ''1-13-2025'' = [] \<and>
   normalize_date ''01-05'' = [] \<and>
   normalize_date_try ''1-x-2025'' = Inl ValueError \<and> normalize_date ''1-x-2025'' = []"
proof -
  note c = normalize_date_canonical
  have a: "normalize_date (''5'' @ [CHR ''/''] @ ''3'' @ [CHR ''/''] @ ''25'') =
        (if spec_date_ok ''5'' ''3'' ''25''
         then spec_pad2 ''5'' @ ''-'' @ spec_pad2 ''3'' @ ''-'' @ spec_expand_year ''25'' else [])"
    using c [THEN conjunct1, rule_format, of "''5''" "''3''" "''25''" "CHR ''/''" "CHR ''/''"]
    by (simp add: is_digit_def is_sep_def)
  have b: "normalize_date (''01'' @ [CHR ''.''] @ ''05'' @ [CHR ''.''] @ ''2027'') =
        (if spec_date_ok ''01'' ''05'' ''2027''
         then spec_pad2 ''01'' @ ''-'' @ spec_pad2 ''05'' @ ''-'' @ spec_expand_year ''2027'' else [])"
    using c [THEN conjunct1, rule_format, of "''01''" "''05''" "''2027''" "CHR ''.''" "CHR ''.''"]
    by (simp add: is_digit_def is_sep_def)
  have d: "normalize_date (''1'' @ [CHR ''-''] @ ''13'' @ [CHR ''-''] @ ''2025'') =
        (if spec_date_ok ''1'' ''13'' ''2025''
         then spec_pad2 ''1'' @ ''-'' @ spec_pad2 ''13'' @ ''-'' @ spec_expand_year ''2025'' else [])"
    using c [THEN conjunct1, rule_format, of "''1''" "''13''" "''2025''" "CHR ''-''" "CHR ''-''"]
    by (simp add: is_digit_def is_sep_def)
  have e: "length (split_on (CHR ''-'') (replace ''.'' ''-'' (replace ''/'' ''-'' ''01-05''))) \<noteq> 3"
    by simp
  have f: "normalize_date ''01-05'' = []" using c e by blast
  have g: "normalize_date_try ''1-x-2025'' = Inl ValueError" by code_simp
  have h: "normalize_date ''1-x-2025'' = []" using c g by blast
  have v: "spec_date_ok ''5'' ''3'' ''25''" "\<not> spec_date_ok ''01'' ''05'' ''2027''"
    "\<not> spec_date_ok ''1'' ''13'' ''2025''"
    by (simp_all add: spec_date_ok_def spec_value_def spec_expand_year_def digit_val_def)
  show ?thesis using a b d f g h v
    by (simp add: spec_pad2_def spec_expand_year_def)
qed

section \<open>Properties of the organization resolver\<close>






text \<open>
  Claim C7. The resolver is idempotent on the canonical identifiers: given AAU, CSIR, NHM,
  NTPC or TANUVAS as the caller-provided name, it returns that identifier whatever the
  document text is.
\<close>

theorem resolver_canonical_fixed:
  "org \<in> set required_orgs \<Longrightarrow> detect_organization_from_text text org = org"
proof -
  have "detect_organization_from_text text ''AAU'' = ''AAU''" by code_simp
  moreover have "detect_organization_from_text text ''CSIR'' = ''CSIR''" by code_simp
  moreover have "detect_organization_from_text text ''NHM'' = ''NHM''" by code_simp
  moreover have "detect_organization_from_text text ''NTPC'' = ''NTPC''" by code_simp
  moreover have "detect_organization_from_text text ''TANUVAS'' = ''TANUVAS''" by code_simp
  moreover assume "org \<in> set required_orgs"
  ultimately show ?thesis by (auto simp: required_orgs_def)
qed

theorem resolver_canonical_fixed_witness:
  "detect_organization_from_text ''Council of Scientific and Industrial Research'' ''NTPC'' = ''NTPC''"
  using resolver_canonical_fixed [of "''NTPC''" "''Council of Scientific and Industrial Research''"]
  by (simp add: required_orgs_def)








section \<open>Properties of the last-date extractor\<close>

lemma keyword_cascade_find:
  "keyword_cascade ps text =
     (case find (pattern_hit text) ps of
        Some (pattern, source) \<Rightarrow> Some (normalize_date (last (rx_findall pattern text)), source)
      | None \<Rightarrow> None)"
  by (induction ps "text" rule: keyword_cascade.induct) (auto simp: pattern_hit_def Let_def)

lemma keyword_cascade_source:
  "keyword_cascade ps text = Some (d, src) \<Longrightarrow> src \<in> snd ` set ps \<and> d \<noteq> []"
  by (induction ps "text" rule: keyword_cascade.induct) (auto simp: Let_def split: if_splits)

lemma heuristic_not_pattern_label: "''heuristic scan'' \<notin> snd ` set date_patterns"
  by (simp add: date_patterns_def)

lemma notice_cascade:
  "keyword_cascade date_patterns notice_text = Some (''01-05-2025'', ''last date keyword'')"
  by code_simp

text \<open>
  Claim C5. The extractor tries its strategies in the fixed order keyword cascade, line
  scan, known-organization fallback, heuristic scan, and returns the result of the first
  that succeeds (\<open>not found\<close> when none does). Within the cascade the patterns are tried
  in order; for each, the last of its non-overlapping matches is normalised, and the first
  pattern for which that gives a date wins, with that pattern's label, which is never the
  label of the heuristic scan. On a notice holding the phrase \<open>Last date: 01-05-2025\<close>
  after unrelated earlier dates the result is that date with the label of the first
  cascade pattern.
\<close>

theorem last_date_strategy_order:
  "(\<forall>r. keyword_cascade date_patterns text = Some r \<longrightarrow>
        extract_last_date_comprehensive today text org_name = r \<and>
        snd r \<in> snd ` set date_patterns \<and> snd r \<noteq> ''heuristic scan'') \<and>
   (keyword_cascade date_patterns text = None \<longrightarrow>
      (\<forall>r. section_scan (split_on (CHR 0x0A) text) = Some r \<longrightarrow>
         extract_last_date_comprehensive today text org_name = r) \<and>
      (section_scan (split_on (CHR 0x0A) text) = None \<longrightarrow>
         (\<forall>r. known_fallback org_name = Some r \<longrightarrow>
            extract_last_date_comprehensive today text org_name = r) \<and>
         (known_fallback org_name = None \<longrightarrow>
            (\<forall>r. heuristic_scan today (rx_findall (date_group 4 4) text) = Some r \<longrightarrow>
               extract_last_date_comprehensive today text org_name = r) \<and>
            (heuristic_scan today (rx_findall (date_group 4 4) text) = None \<longrightarrow>
               extract_last_date_comprehensive today text org_name = ([], ''not found''))))) \<and>
   keyword_cascade ps text =
     (case find (pattern_hit text) ps of
        Some (pattern, source) \<Rightarrow> Some (normalize_date (last (rx_findall pattern text)), source)
      | None \<Rightarrow> None) \<and>
   extract_last_date_comprehensive today notice_text org_name =
     (''01-05-2025'', ''last date keyword'')"
proof (intro conjI allI impI)
  fix r
  assume k: "keyword_cascade date_patterns text = Some r"
  then show "extract_last_date_comprehensive today text org_name = r"
    by (simp add: extract_last_date_comprehensive_def)
  from k have m: "snd r \<in> snd ` set date_patterns"
    using keyword_cascade_source[of date_patterns "text" "fst r" "snd r"] by simp
  then show "snd r \<in> snd ` set date_patterns" .
  show "snd r \<noteq> ''heuristic scan''"
  proof
    assume "snd r = ''heuristic scan''"
    with m have "''heuristic scan'' \<in> snd ` set date_patterns" by simp
    with heuristic_not_pattern_label show False by blast
  qed
next
  show "extract_last_date_comprehensive today notice_text org_name =
     (''01-05-2025'', ''last date keyword'')"
    by (simp add: extract_last_date_comprehensive_def notice_cascade)
qed (simp_all add: extract_last_date_comprehensive_def keyword_cascade_find)

theorem last_date_strategy_order_witness:
  "extract_last_date_comprehensive (2025, 1, 15) notice_text [] =
     (''01-05-2025'', ''last date keyword'') \<and>
   extract_last_date_comprehensive (2025, 1, 15) ''Forms close on the deadline day'' ''NHM'' =
     (''31-01-2025'', ''known fallback'') \<and>
   extract_last_date_comprehensive (2025, 1, 15) ''Interview on 10-02-2025'' ''ACME'' =
     (''10-02-2025'', ''heuristic scan'') \<and>
   extract_last_date_comprehensive (2025, 1, 15) ''No dates here'' ''ACME'' = ([], ''not found'')"
proof -
  note s = last_date_strategy_order
  have a: "extract_last_date_comprehensive (2025, 1, 15) notice_text [] =
     (''01-05-2025'', ''last date keyword'')"
    using s [of notice_text "(2025, 1, 15)" "[]", THEN conjunct1] notice_cascade by blast
  have b1: "keyword_cascade date_patterns ''Forms close on the deadline day'' = None"
    "section_scan (split_on (CHR 0x0A) ''Forms close on the deadline day'') = None"
    "known_fallback ''NHM'' = Some (''31-01-2025'', ''known fallback'')"
    by code_simp+
  have b: "extract_last_date_comprehensive (2025, 1, 15) ''Forms close on the deadline day'' ''NHM'' =
     (''31-01-2025'', ''known fallback'')"
    using s [of "''Forms close on the deadline day''" "(2025, 1, 15)" "''NHM''",
        THEN conjunct2, THEN conjunct1] b1 by blast
  have c1: "keyword_cascade date_patterns ''Interview on 10-02-2025'' = None"
    "section_scan (split_on (CHR 0x0A) ''Interview on 10-02-2025'') = None"
    "known_fallback ''ACME'' = None"
    "heuristic_scan (2025, 1, 15) (rx_findall (date_group 4 4) ''Interview on 10-02-2025'') =
       Some (''10-02-2025'', ''heuristic scan'')"
    by code_simp+
  have c: "extract_last_date_comprehensive (2025, 1, 15) ''Interview on 10-02-2025'' ''ACME'' =
     (''10-02-2025'', ''heuristic scan'')"
    using s [of "''Interview on 10-02-2025''" "(2025, 1, 15)" "''ACME''",
        THEN conjunct2, THEN conjunct1] c1 by blast
  have d1: "keyword_cascade date_patterns ''No dates here'' = None"
    "section_scan (split_on (CHR 0x0A) ''No dates here'') = None"
    "heuristic_scan (2025, 1, 15) (rx_findall (date_group 4 4) ''No dates here'') = None"
    by code_simp+
  have d: "extract_last_date_comprehensive (2025, 1, 15) ''No dates here'' ''ACME'' =
     ([], ''not found'')"
    using s [of "''No dates here''" "(2025, 1, 15)" "''ACME''",
        THEN conjunct2, THEN conjunct1] d1 c1(3) by blast
  show ?thesis using a b c d by blast
qed

section \<open>Properties of the extraction orchestrator\<close>

lemma ensure_step_map_of:
  "map_of (foldl (\<lambda>p field. if map_of p field = None then AList.update field (JStr []) p else p) pos fs) k =
     (if k \<in> set fs \<and> map_of pos k = None then Some (JStr []) else map_of pos k)"
  by (induction fs arbitrary: pos) (auto simp: update_conv')

lemma map_of_ensure_fields:
  "map_of (ensure_fields pos) k =
     (if k \<in> set required_fields then Some (field_or_empty pos k) else map_of pos k)"
  by (auto simp: ensure_fields_def ensure_step_map_of field_or_empty_def split: option.splits)

lemma keys_dom: "keys d = dom (map_of d)"
  by (simp add: keys_def dom_map_of_conv_image_fst)

lemma keys_ensure_fields: "keys (ensure_fields pos) = keys pos \<union> set required_fields"
  by (auto simp: keys_dom map_of_ensure_fields dom_def split: if_splits)

lemma last_date_required: "''last_date'' \<in> set required_fields"
  by (simp add: required_fields_def)

lemma wants_autofill_punted: "wants_autofill v = Inr b \<Longrightarrow> b = spec_punted v"
  by (cases v) (auto simp: wants_autofill_def spec_punted_def split: if_splits)

lemma autofill_last_date_result:
  assumes "autofill_last_date auto_date org pos = Inr filled"
  shows "\<exists>v. map_of pos ''last_date'' = Some v \<and>
           map_of filled = (map_of pos)(''last_date'' \<mapsto> spec_repaired auto_date org v)"
proof -
  from assms obtain v b where v: "map_of pos ''last_date'' = Some v"
    and b: "wants_autofill v = Inr b"
    by (auto simp: autofill_last_date_def split: option.splits sum.splits)
  have p: "b = spec_punted v" using wants_autofill_punted[OF b] .
  have "map_of filled = (map_of pos)(''last_date'' \<mapsto> spec_repaired auto_date org v)"
    using assms v b p
    by (auto simp: autofill_last_date_def spec_repaired_def update_conv' fun_upd_idem
             split: if_splits option.splits)
  with v show ?thesis by blast
qed

lemma repair_position_result:
  assumes "repair_position auto_date org pos = Inr filled"
  shows "\<exists>kvs. pos = JObj kvs \<and>
           map_of filled =
             (map_of (ensure_fields kvs))
               (''last_date'' \<mapsto> spec_repaired auto_date org (field_or_empty kvs ''last_date''))"
proof -
  from assms obtain kvs where k: "pos = JObj kvs"
    by (cases pos) (auto simp: repair_position_def)
  from assms k have a: "autofill_last_date auto_date org (ensure_fields kvs) = Inr filled"
    by (auto simp: repair_position_def split: sum.splits option.splits)
  from autofill_last_date_result[OF a] show ?thesis
    using k by (auto simp: map_of_ensure_fields last_date_required)
qed

lemma repair_all_result:
  "repair_all auto_date org elems = Inr ps \<Longrightarrow>
   list_all2 (\<lambda>e p. repair_position auto_date org e = Inr p) elems ps"
  by (induction elems arbitrary: ps) (auto split: sum.splits)

lemma repair_all_not_objects:
  "repair_all auto_date org (map f xs) = Inr ps \<Longrightarrow> \<forall>x. \<exists>s. f x = JStr s \<Longrightarrow> xs = []"
proof (cases xs)
  case Nil then show ?thesis by simp
next
  case (Cons x rest)
  assume r: "repair_all auto_date org (map f xs) = Inr ps" and s: "\<forall>x. \<exists>s. f x = JStr s"
  from s obtain t where "f x = JStr t" by blast
  then have "repair_position auto_date org (f x) = Inl TypeError"
    by (simp add: repair_position_def)
  with r Cons show ?thesis by simp
qed

lemma analyze_try_result:
  assumes "analyze_try env detected auto_date source reply = Inr res"
  shows "\<exists>content elems. reply = Inr content \<and>
           json_loads env (clean_response content) = Inr (JArr elems) \<and>
           repair_all auto_date detected elems = Inr (positions res) \<and>
           positions res \<noteq> [] \<and> total_positions res = length (positions res) \<and>
           organization res = detected \<and>
           auto_last_date (extraction_quality res) = auto_date \<and>
           date_source (extraction_quality res) = source"
proof -
  from assms obtain content parsed elems ps where c: "reply = Inr content"
    and j: "json_loads env (clean_response content) = Inr parsed"
    and i: "iter_positions parsed = Inr elems"
    and r: "repair_all auto_date detected elems = Inr ps"
    and n: "ps \<noteq> []"
    and res: "positions res = ps" "total_positions res = length ps" "organization res = detected"
      "auto_last_date (extraction_quality res) = auto_date"
      "date_source (extraction_quality res) = source"
    by (auto simp: analyze_try_def split: sum.splits if_splits)
  have "parsed = JArr elems"
  proof (cases parsed)
    case (JObj kvs)
    with i have "elems = map (\<lambda>kv. JStr (fst kv)) kvs" by (simp add: iter_positions_def)
    with r have "kvs = []" using repair_all_not_objects[of auto_date detected "\<lambda>kv. JStr (fst kv)" kvs ps]
      by blast
    with \<open>elems = map (\<lambda>kv. JStr (fst kv)) kvs\<close> r n show ?thesis by simp
  next
    case (JStr s)
    with i have e: "elems = map (\<lambda>c. JStr [c]) s" by (simp add: iter_positions_def)
    with r have "s = []" using repair_all_not_objects[of auto_date detected "\<lambda>c. JStr [c]" s ps]
      by blast
    with e r n show ?thesis by simp
  qed (use i in \<open>auto simp: iter_positions_def\<close>)
  with c j r n res show ?thesis by auto
qed

lemma analyze_result:
  assumes "analyze_with_ultra_strict_ai env text org_name reply = Inr res"
  shows "mistral_client env \<and>
         analyze_try env (detect_organization_from_text text org_name)
           (fst (extract_last_date_comprehensive (now env) text
                  (detect_organization_from_text text org_name)))
           (snd (extract_last_date_comprehensive (now env) text
                  (detect_organization_from_text text org_name))) reply = Inr res"
  using assms
  by (auto simp: analyze_with_ultra_strict_ai_def Let_def split: if_splits sum.splits pyexc.splits)

lemma analyze_success:
  assumes "analyze_with_ultra_strict_ai env text org_name reply = Inr res"
  shows "\<exists>content elems. reply = Inr content \<and>
           json_loads env (clean_response content) = Inr (JArr elems) \<and>
           list_all2 (\<lambda>e p. repair_position (auto_last_date (extraction_quality res))
                                (organization res) e = Inr p) elems (positions res) \<and>
           positions res \<noteq> [] \<and> total_positions res = length (positions res) \<and>
           organization res = detect_organization_from_text text org_name \<and>
           auto_last_date (extraction_quality res) =
             fst (extract_last_date_comprehensive (now env) text (organization res))"
proof -
  from analyze_result[OF assms] have
    "analyze_try env (detect_organization_from_text text org_name)
           (fst (extract_last_date_comprehensive (now env) text
                  (detect_organization_from_text text org_name)))
           (snd (extract_last_date_comprehensive (now env) text
                  (detect_organization_from_text text org_name))) reply = Inr res" by blast
  from analyze_try_result[OF this] show ?thesis
    by (metis repair_all_result)
qed

text \<open>
  Claim C8. When the orchestrator returns, the response parsed to an array of objects and
  the returned records correspond to them one to one. In each returned record the last
  date is the parsed one (the empty string when the key was missing) repaired: if it is
  empty or holds \<open>check\<close> or \<open>manual\<close> in any case, it is the pre-detected deadline when
  that is non-empty, else the known deadline of the resolved organization when there is
  one, else unchanged; if it is non-empty and holds neither marker it is unchanged.
\<close>

theorem last_date_repair:
  assumes "analyze_with_ultra_strict_ai env text org_name reply = Inr res"
  shows "\<exists>content elems.
           reply = Inr content \<and>
           json_loads env (clean_response content) = Inr (JArr elems) \<and>
           length (positions res) = length elems \<and>
           organization res = detect_organization_from_text text org_name \<and>
           auto_last_date (extraction_quality res) =
             fst (extract_last_date_comprehensive (now env) text (organization res)) \<and>
           (\<forall>i<length elems. \<exists>kvs. elems ! i = JObj kvs \<and>
              map_of (positions res ! i) ''last_date'' =
                Some (spec_repaired (auto_last_date (extraction_quality res)) (organization res)
                        (field_or_empty kvs ''last_date'')))"
proof -
  from analyze_success[OF assms] obtain content elems where c: "reply = Inr content"
    and j: "json_loads env (clean_response content) = Inr (JArr elems)"
    and l: "list_all2 (\<lambda>e p. repair_position (auto_last_date (extraction_quality res))
                                (organization res) e = Inr p) elems (positions res)"
    and o: "organization res = detect_organization_from_text text org_name"
    and a: "auto_last_date (extraction_quality res) =
             fst (extract_last_date_comprehensive (now env) text (organization res))"
    by blast
  have len: "length (positions res) = length elems" using l by (simp add: list_all2_lengthD)
  have "\<exists>kvs. elems ! i = JObj kvs \<and>
              map_of (positions res ! i) ''last_date'' =
                Some (spec_repaired (auto_last_date (extraction_quality res)) (organization res)
                        (field_or_empty kvs ''last_date''))" if "i < length elems" for i
  proof -
    have "repair_position (auto_last_date (extraction_quality res))
        (organization res) (elems ! i) = Inr (positions res ! i)"
      using list_all2_nthD[OF l that] by simp
    from repair_position_result[OF this] show ?thesis by auto
  qed
  with c j len o a show ?thesis by blast
qed

theorem last_date_repair_witness:
  "\<exists>res. analyze_with_ultra_strict_ai example_env example_text [] (Inr example_reply) = Inr res \<and>
     organization res = ''NTPC'' \<and>
     auto_last_date (extraction_quality res) = ''01-05-2025'' \<and>
     map_of (positions res ! 0) ''last_date'' = Some (JStr ''01-05-2025'') \<and>
     map_of (positions res ! 1) ''last_date'' = Some (JStr ''20-03-2025'')"
proof -
  have "\<not> isl (analyze_with_ultra_strict_ai example_env example_text [] (Inr example_reply))"
    by code_simp
  then obtain res where
    r: "analyze_with_ultra_strict_ai example_env example_text [] (Inr example_reply) = Inr res"
    by (cases "analyze_with_ultra_strict_ai example_env example_text [] (Inr example_reply)") auto
  have cl: "clean_response example_reply = example_payload" by code_simp
  have o: "detect_organization_from_text example_text [] = ''NTPC''" by code_simp
  have d: "fst (extract_last_date_comprehensive (2025, 1, 15) example_text ''NTPC'') = ''01-05-2025''"
    by code_simp
  from last_date_repair[OF r] obtain elems where
    j: "json_loads example_env (clean_response example_reply) = Inr (JArr elems)"
    and org: "organization res = detect_organization_from_text example_text []"
    and au: "auto_last_date (extraction_quality res) =
             fst (extract_last_date_comprehensive (now example_env) example_text (organization res))"
    and all: "\<forall>i<length elems. \<exists>kvs. elems ! i = JObj kvs \<and>
              map_of (positions res ! i) ''last_date'' =
                Some (spec_repaired (auto_last_date (extraction_quality res)) (organization res)
                        (field_or_empty kvs ''last_date''))"
    by auto
  from j cl have e: "elems = example_records"
    by (simp add: example_env_def example_loads_def)
  have org': "organization res = ''NTPC''" using org o by simp
  have au': "auto_last_date (extraction_quality res) = ''01-05-2025''"
    using au org' d by (simp add: example_env_def)
  have p0: "spec_repaired ''01-05-2025'' ''NTPC'' (JStr ''check pdf'') = JStr ''01-05-2025''"
    by code_simp
  have p1: "spec_repaired ''01-05-2025'' ''NTPC'' (JStr ''20-03-2025'') = JStr ''20-03-2025''"
    by code_simp
  have l2: "0 < length elems" "1 < length elems" using e by (simp_all add: example_records_def)
  from all [rule_format, OF l2(1)] obtain k0 where k0: "elems ! 0 = JObj k0"
    and m0: "map_of (positions res ! 0) ''last_date'' =
      Some (spec_repaired (auto_last_date (extraction_quality res)) (organization res)
              (field_or_empty k0 ''last_date''))" by blast
  from all [rule_format, OF l2(2)] obtain k1 where k1: "elems ! 1 = JObj k1"
    and m1: "map_of (positions res ! 1) ''last_date'' =
      Some (spec_repaired (auto_last_date (extraction_quality res)) (organization res)
              (field_or_empty k1 ''last_date''))" by blast
  have f0: "field_or_empty k0 ''last_date'' = JStr ''check pdf''"
    using k0 e by (auto simp: example_records_def field_or_empty_def)
  have f1: "field_or_empty k1 ''last_date'' = JStr ''20-03-2025''"
    using k1 e by (auto simp: example_records_def field_or_empty_def)
  have "map_of (positions res ! 0) ''last_date'' = Some (JStr ''01-05-2025'')"
    using m0 f0 org' au' p0 by simp
  moreover have "map_of (positions res ! 1) ''last_date'' = Some (JStr ''20-03-2025'')"
    using m1 f1 org' au' p1 by simp
  ultimately show ?thesis using r org' au' by blast
qed

lemma required_fields_14: "distinct required_fields \<and> length required_fields = 14"
  by (simp add: required_fields_def)

lemma repair_position_keys:
  assumes "repair_position auto_date org pos = Inr filled"
  shows "\<exists>kvs. pos = JObj kvs \<and> keys filled = keys kvs \<union> set required_fields \<and>
           (\<forall>k. k \<noteq> ''last_date'' \<longrightarrow>
              map_of filled k =
                (if k \<in> set required_fields then Some (field_or_empty kvs k) else map_of kvs k))"
proof -
  from repair_position_result[OF assms] obtain kvs where k: "pos = JObj kvs"
    and m: "map_of filled =
             (map_of (ensure_fields kvs))
               (''last_date'' \<mapsto> spec_repaired auto_date org (field_or_empty kvs ''last_date''))"
    by blast
  have "keys filled = insert ''last_date'' (keys (ensure_fields kvs))"
    by (simp add: keys_dom m)
  then have "keys filled = keys kvs \<union> set required_fields"
    using last_date_required by (auto simp: keys_ensure_fields)
  moreover have "\<forall>k. k \<noteq> ''last_date'' \<longrightarrow>
              map_of filled k =
                (if k \<in> set required_fields then Some (field_or_empty kvs k) else map_of kvs k)"
    by (simp add: m map_of_ensure_fields)
  ultimately show ?thesis using k by blast
qed

text \<open>
  Claim C2 (as amended). When the orchestrator returns, the response parsed to an array of
  objects and the returned records correspond to them one to one, none dropped. The keys
  of a returned record are the keys of the parsed object together with the 14 required
  keys: a required key that was missing has the empty string, a key that was present keeps
  its value (the last date apart, which may be repaired), and a key of the response outside
  the 14 is kept as it is.
\<close>

theorem records_complete:
  assumes "analyze_with_ultra_strict_ai env text org_name reply = Inr res"
  shows "distinct required_fields \<and> length required_fields = 14 \<and>
         (\<exists>content elems.
            reply = Inr content \<and>
            json_loads env (clean_response content) = Inr (JArr elems) \<and>
            length (positions res) = length elems \<and>
            total_positions res = length elems \<and>
            (\<forall>i<length elems. \<exists>kvs. elems ! i = JObj kvs \<and>
               keys (positions res ! i) = keys kvs \<union> set required_fields \<and>
               (\<forall>k. k \<noteq> ''last_date'' \<longrightarrow>
                  map_of (positions res ! i) k =
                    (if k \<in> set required_fields then Some (field_or_empty kvs k)
                     else map_of kvs k))))"
proof -
  from analyze_success[OF assms] obtain content elems where c: "reply = Inr content"
    and j: "json_loads env (clean_response content) = Inr (JArr elems)"
    and l: "list_all2 (\<lambda>e p. repair_position (auto_last_date (extraction_quality res))
                                (organization res) e = Inr p) elems (positions res)"
    and t: "total_positions res = length (positions res)"
    by blast
  have len: "length (positions res) = length elems" using l by (simp add: list_all2_lengthD)
  have "\<exists>kvs. elems ! i = JObj kvs \<and>
               keys (positions res ! i) = keys kvs \<union> set required_fields \<and>
               (\<forall>k. k \<noteq> ''last_date'' \<longrightarrow>
                  map_of (positions res ! i) k =
                    (if k \<in> set required_fields then Some (field_or_empty kvs k)
                     else map_of kvs k))" if "i < length elems" for i
  proof -
    have "repair_position (auto_last_date (extraction_quality res))
        (organization res) (elems ! i) = Inr (positions res ! i)"
      using list_all2_nthD[OF l that] by simp
    from repair_position_keys[OF this] show ?thesis .
  qed
  with c j len t required_fields_14 show ?thesis by auto
qed

theorem records_complete_witness:
  "\<exists>res. analyze_with_ultra_strict_ai example_env example_text [] (Inr example_reply) = Inr res \<and>
     length (positions res) = 2 \<and>
     keys (positions res ! 0) = insert ''grade'' (set required_fields) \<and>
     keys (positions res ! 1) = set required_fields \<and>
     map_of (positions res ! 0) ''salary'' = Some (JStr []) \<and>
     map_of (positions res ! 1) ''salary'' = Some (JStr ''Rs 30,000'')"
proof -
  have "\<not> isl (analyze_with_ultra_strict_ai example_env example_text [] (Inr example_reply))"
    by code_simp
  then obtain res where
    r: "analyze_with_ultra_strict_ai example_env example_text [] (Inr example_reply) = Inr res"
    by (cases "analyze_with_ultra_strict_ai example_env example_text [] (Inr example_reply)") auto
  have cl: "clean_response example_reply = example_payload" by code_simp
  from records_complete[OF r] obtain elems where
    j: "json_loads example_env (clean_response example_reply) = Inr (JArr elems)"
    and len: "length (positions res) = length elems"
    and all: "\<forall>i<length elems. \<exists>kvs. elems ! i = JObj kvs \<and>
               keys (positions res ! i) = keys kvs \<union> set required_fields \<and>
               (\<forall>k. k \<noteq> ''last_date'' \<longrightarrow>
                  map_of (positions res ! i) k =
                    (if k \<in> set required_fields then Some (field_or_empty kvs k)
                     else map_of kvs k))"
    by auto
  from j cl have e: "elems = example_records"
    by (simp add: example_env_def example_loads_def)
  have l2: "0 < length elems" "1 < length elems" "length elems = 2"
    using e by (simp_all add: example_records_def)
  from all [rule_format, OF l2(1)] obtain k0 where k0: "elems ! 0 = JObj k0"
    and ks0: "keys (positions res ! 0) = keys k0 \<union> set required_fields"
    and m0: "\<forall>k. k \<noteq> ''last_date'' \<longrightarrow>
                  map_of (positions res ! 0) k =
                    (if k \<in> set required_fields then Some (field_or_empty k0 k)
                     else map_of k0 k)" by blast
  from all [rule_format, OF l2(2)] obtain k1 where k1: "elems ! 1 = JObj k1"
    and ks1: "keys (positions res ! 1) = keys k1 \<union> set required_fields"
    and m1: "\<forall>k. k \<noteq> ''last_date'' \<longrightarrow>
                  map_of (positions res ! 1) k =
                    (if k \<in> set required_fields then Some (field_or_empty k1 k)
                     else map_of k1 k)" by blast
  have v0: "k0 = [(''post_name'', JStr ''Engineer''), (''grade'', JStr ''E1''),
            (''last_date'', JStr ''check pdf'')]"
    using k0 e by (auto simp: example_records_def)
  have v1: "k1 = [(''post_name'', JStr ''Clerk''), (''last_date'', JStr ''20-03-2025''),
            (''salary'', JStr ''Rs 30,000'')]"
    using k1 e by (auto simp: example_records_def)
  have a: "keys (positions res ! 0) = insert ''grade'' (set required_fields)"
    unfolding ks0 v0 by (auto simp: keys_def required_fields_def)
  have b: "keys (positions res ! 1) = set required_fields"
    unfolding ks1 v1 by (auto simp: keys_def required_fields_def)
  have s: "''salary'' \<in> set required_fields" "''salary'' \<noteq> ''last_date''"
    by (simp_all add: required_fields_def)
  have c: "map_of (positions res ! 0) ''salary'' = Some (JStr [])"
    using m0 s by (simp add: v0 field_or_empty_def)
  have d: "map_of (positions res ! 1) ''salary'' = Some (JStr ''Rs 30,000'')"
    using m1 s by (simp add: v1 field_or_empty_def)
  show ?thesis using r len l2(3) a b c d by auto
qed

text \<open>
  The claim as stated has every returned record carry exactly the 14 required keys; a key
  of the response outside the 14 is kept, so the first record of the example has 15.
\<close>

theorem records_exactly_14_counterexample:
  "(case analyze_with_ultra_strict_ai example_env example_text [] (Inr example_reply) of
      Inr res \<Rightarrow> map (map fst) (positions res)
    | Inl e \<Rightarrow> []) =
   [[''post_name'', ''grade'', ''last_date'', ''advertisement_number'', ''advertisement_date'',
     ''vacancies'', ''salary'', ''location'', ''age_limit'', ''category'', ''qualification'',
     ''mandatory'', ''specialization'', ''experience_years'', ''remarks''],
    [''post_name'', ''last_date'', ''salary'', ''advertisement_number'', ''advertisement_date'',
     ''vacancies'', ''location'', ''age_limit'', ''category'', ''qualification'',
     ''mandatory'', ''specialization'', ''experience_years'', ''remarks'']] \<and>
   ''grade'' \<notin> set required_fields"
  by code_simp

lemma analyze_try_decode_error:
  "json_loads env (clean_response content) = Inl msg \<Longrightarrow>
   analyze_try env detected auto_date source (Inr content) = Inl (JSONDecodeError msg)"
  by (simp add: analyze_try_def)



text \<open>
  A payload that parses, but not to an array, is fatal as well; it is reported by the
  general handler.
\<close>

lemma repair_all_strings:
  "xs \<noteq> [] \<Longrightarrow> \<forall>x. \<exists>s. f x = JStr s \<Longrightarrow> repair_all auto_date org (map f xs) = Inl TypeError"
proof (cases xs)
  case Nil
  assume "xs \<noteq> []" with Nil show ?thesis by simp
next
  case (Cons x rest)
  assume "\<forall>x. \<exists>s. f x = JStr s"
  then obtain t where "f x = JStr t" by blast
  then show ?thesis using Cons by (simp add: repair_position_def)
qed

lemma non_array_payload_fails:
  assumes "mistral_client env" and "json_loads env (clean_response content) = Inr parsed"
    and "\<forall>elems. parsed \<noteq> JArr elems"
  shows "\<exists>e. (e = TypeError \<or> e = ZeroDivisionError) \<and>
           analyze_with_ultra_strict_ai env text org_name (Inr content) =
             Inl (HTTPException 500 (''Analysis failed: '' @ str_exc env e))"
proof -
  have "\<exists>e. (e = TypeError \<or> e = ZeroDivisionError) \<and>
          analyze_try env detected auto_date source (Inr content) = Inl e"
    for detected auto_date source
  proof (cases parsed)
    case (JArr xs)
    with assms(3) show ?thesis by simp
  next
    case (JObj kvs)
    show ?thesis
    proof (cases "kvs = []")
      case True
      with JObj assms(2) show ?thesis by (simp add: analyze_try_def iter_positions_def)
    next
      case False
      then have "repair_all auto_date detected (map (\<lambda>kv. JStr (fst kv)) kvs) = Inl TypeError"
        by (intro repair_all_strings) auto
      with JObj assms(2) show ?thesis by (simp add: analyze_try_def iter_positions_def)
    qed
  next
    case (JStr s)
    show ?thesis
    proof (cases "s = []")
      case True
      with JStr assms(2) show ?thesis by (simp add: analyze_try_def iter_positions_def)
    next
      case False
      then have "repair_all auto_date detected (map (\<lambda>c. JStr [c]) s) = Inl TypeError"
        by (intro repair_all_strings) auto
      with JStr assms(2) show ?thesis by (simp add: analyze_try_def iter_positions_def)
    qed
  qed (use assms(2) in \<open>simp_all add: analyze_try_def iter_positions_def\<close>)
  then obtain e where "e = TypeError \<or> e = ZeroDivisionError"
    and "analyze_try env (detect_organization_from_text text org_name)
           (fst (extract_last_date_comprehensive (now env) text
                  (detect_organization_from_text text org_name)))
           (snd (extract_last_date_comprehensive (now env) text
                  (detect_organization_from_text text org_name))) (Inr content) = Inl e"
    by blast
  then show ?thesis using assms(1)
    by (auto simp: analyze_with_ultra_strict_ai_def Let_def)
qed

section \<open>Properties of the batch endpoint\<close>

lemma process_file_results:
  "analyzed_results (process_file env org_names idx file st) =
     analyzed_results st @ doc_entry env org_names idx file"
  by (cases "process_document env org_names idx file")
     (auto simp: process_file_def doc_entry_def failed_org_def Let_def split: sum.splits)

lemma process_file_calls:
  "ai_calls (process_file env org_names idx file st) =
     ai_calls st @ (if doc_called env org_names (idx, file) then [idx] else [])"
  by (cases "process_document env org_names idx file")
     (auto simp: process_file_def doc_called_def Let_def split: sum.splits)

lemma process_file_orgs:
  "processed_orgs (process_file env org_names idx file st) =
     processed_orgs st \<union> organization ` set (doc_entry env org_names idx file)"
  by (cases "process_document env org_names idx file")
     (auto simp: process_file_def doc_entry_def failed_org_def error_placeholder_def Let_def
           split: sum.splits)

lemma process_files_results:
  "analyzed_results (process_files env org_names k files st) =
     analyzed_results st @
     concat (map (\<lambda>(i, f). doc_entry env org_names i f) (enumerate k files))"
  by (induction files arbitrary: k st) (auto simp: process_file_results)

lemma process_files_calls:
  "ai_calls (process_files env org_names k files st) =
     ai_calls st @ map fst (filter (doc_called env org_names) (enumerate k files))"
  by (induction files arbitrary: k st) (auto simp: process_file_calls)

lemma process_files_orgs:
  "processed_orgs (process_files env org_names k files st) =
     processed_orgs st \<union>
     organization ` set (concat (map (\<lambda>(i, f). doc_entry env org_names i f) (enumerate k files)))"
  by (induction files arbitrary: k st) (simp_all add: process_file_orgs image_Un Un_assoc)




lemma analyze_forms_report:
  assumes "mistral_client env" "files \<noteq> []"
  shows "\<exists>rep. analyze_forms env files org_names = Inr rep \<and>
           analyzed_results rep =
             sort_key org_sort_key
               (concat (map (\<lambda>(i, f). doc_entry env org_names i f) (enumerate 0 files)) @
                backfill (processed_orgs rep)) \<and>
           processed_orgs rep =
             organization `
               set (concat (map (\<lambda>(i, f). doc_entry env org_names i f) (enumerate 0 files))) \<and>
           ai_calls rep = map fst (filter (doc_called env org_names) (enumerate 0 files))"
  using assms
  by (simp add: analyze_forms_def Let_def process_files_results process_files_calls
        process_files_orgs)





text \<open>
  The extracted text carries a banner for every page, so the text of a PDF with at least
  one page has 128 characters or more once stripped, whatever the pages hold: of the files
  the extractor can read, only those without pages take the branch above.
\<close>

lemma strip_keeps_middle:
  assumes "\<not> is_space a" "\<not> is_space b"
  shows "length (strip (pre @ a # mid @ b # post)) \<ge> length mid + 2"
proof -
  have d: "\<And>xs c ys. \<not> is_space c \<Longrightarrow>
      \<exists>zs. dropWhile is_space (xs @ c # ys) = zs @ c # ys"
  proof -
    fix xs c ys assume c: "\<not> is_space c"
    show "\<exists>zs. dropWhile is_space (xs @ c # ys) = zs @ c # ys"
    proof (induction xs)
      case Nil
      then show ?case using c by simp
    next
      case (Cons x xs)
      then show ?case by (cases "is_space x") auto
    qed
  qed
  from d[OF assms(1), of pre "mid @ b # post"] obtain zs where
    z: "dropWhile is_space (pre @ a # mid @ b # post) = zs @ a # mid @ b # post" by blast
  from d[OF assms(2), of "rev post" "rev mid @ a # rev zs"] obtain ws where
    w: "dropWhile is_space (rev post @ b # rev mid @ a # rev zs) = ws @ b # rev mid @ a # rev zs"
    by blast
  show ?thesis by (simp add: strip_def z w)
qed

lemma join_first_block:
  "xs \<noteq> [] \<Longrightarrow> \<exists>rest. join sep xs = hd xs @ rest"
  by (induction sep xs rule: join.induct) auto

lemma page_text_never_short:
  assumes "pdf file = Inr pages" "pages \<noteq> []"
  shows "\<exists>pdf_text. extract_text_from_pdf file = Inr pdf_text \<and> 128 \<le> length (strip pdf_text)"
proof -
  obtain page rest where pg: "pages = page # rest" using assms(2) by (cases pages) auto
  let ?blocks = "map (\<lambda>(page_num, page_text). page_block page_num page_text) (enumerate 0 pages)"
  have h: "?blocks \<noteq> []" "hd ?blocks = page_block 0 page" by (simp_all add: pg)
  from join_first_block[OF h(1), of "[CHR 0x0A]"] obtain tail where
    j: "join [CHR 0x0A] ?blocks = page_block 0 page @ tail" using h(2) by auto
  have s1: "str_nat (0 + 1) = ''1''" by code_simp
  have b: "page_block 0 page @ tail =
      [CHR 0x0A] @ CHR ''='' #
        (replicate 59 (CHR ''='') @ [CHR 0x0A] @ ''PAGE 1'' @ [CHR 0x0A] @ replicate 59 (CHR ''='')) @
        CHR ''='' # ([CHR 0x0A] @ page @ tail)"
  proof -
    have r: "replicate 60 (CHR ''='') = CHR ''='' # replicate 59 (CHR ''='')"
      "replicate 60 (CHR ''='') = replicate 59 (CHR ''='') @ [CHR ''='']"
      by (simp_all add: replicate_append_same numeral_eq_Suc)
    show ?thesis
      unfolding page_block_def s1
      by (subst r(1), subst r(2)) simp
  qed
  have e: "\<not> is_space (CHR ''='')" by (simp add: is_space_def)
  have "128 \<le> length (strip (page_block 0 page @ tail))"
    unfolding b using strip_keeps_middle[OF e e, where pre = "[CHR 0x0A]"
      and mid = "replicate 59 (CHR ''='') @ [CHR 0x0A] @ ''PAGE 1'' @ [CHR 0x0A] @ replicate 59 (CHR ''='')"
      and post = "[CHR 0x0A] @ page @ tail"]
    by simp
  then show ?thesis using assms(1) j by (simp add: extract_text_from_pdf_def)
qed


lemma document_failures:
  assumes "mistral_client env" and "extract_text_from_pdf file = Inr pdf_text"
    and "\<not> length (strip pdf_text) < 100"
  shows "(completion file = Inl e \<longrightarrow>
            (\<exists>detail. process_document env org_names idx file =
                        (True, Inl (HTTPException 500 detail)))) \<and>
         (completion file = Inr content \<and> json_loads env (clean_response content) = Inl msg \<longrightarrow>
            process_document env org_names idx file =
              (True, Inl (HTTPException 500
                 (''AI response parsing failed: '' @ str_exc env (JSONDecodeError msg)))))"
proof (intro conjI impI)
  assume c: "completion file = Inl e"
  have "analyze_try env d a s (Inl e) = Inl e" for d a s by (simp add: analyze_try_def)
  then have "\<exists>detail. analyze_with_ultra_strict_ai env pdf_text n (Inl e) =
      Inl (HTTPException 500 detail)" for n
    using assms(1) by (cases e) (simp_all add: analyze_with_ultra_strict_ai_def Let_def)
  then show "\<exists>detail. process_document env org_names idx file =
                        (True, Inl (HTTPException 500 detail))"
    using assms c by (simp add: process_document_def Let_def)
next
  assume c: "completion file = Inr content \<and> json_loads env (clean_response content) = Inl msg"
  then have "analyze_with_ultra_strict_ai env pdf_text n (Inr content) =
      Inl (HTTPException 500
             (''AI response parsing failed: '' @ str_exc env (JSONDecodeError msg)))" for n
    using assms(1)
    by (simp add: analyze_with_ultra_strict_ai_def analyze_try_decode_error Let_def)
  then show "process_document env org_names idx file =
              (True, Inl (HTTPException 500
                 (''AI response parsing failed: '' @ str_exc env (JSONDecodeError msg))))"
    using assms c by (simp add: process_document_def Let_def)
qed



text \<open>
  Claim C1. The report does not always have five entries. A single unreadable upload with
  no hint is reported under \<open>Organization_1\<close> next to the five placeholders, and two
  uploads resolving to NTPC give two NTPC entries: six entries in both runs.
\<close>

theorem report_size_failing_input:
  "(case analyze_forms example_env [unreadable_upload] [] of
      Inr rep \<Rightarrow> map organization (analyzed_results rep)
    | Inl e \<Rightarrow> []) =
     [''AAU'', ''CSIR'', ''NHM'', ''NTPC'', ''TANUVAS'', ''Organization_1''] \<and>
   (case analyze_forms example_env [empty_upload ''ntpc_a.pdf'', empty_upload ''ntpc_b.pdf''] [] of
      Inr rep \<Rightarrow> map organization (analyzed_results rep)
    | Inl e \<Rightarrow> []) =
     [''AAU'', ''CSIR'', ''NHM'', ''NTPC'', ''NTPC'', ''TANUVAS'']"
  by code_simp

text \<open>
  What the assembly does guarantee: the report is sorted by the canonical order, with any
  other organization last, and every required organization has at least one entry.
\<close>

lemma backfill_orgs:
  "organization ` set (backfill processed) = set required_orgs - processed"
proof -
  have "organization (missing_placeholder x) = x" for x by (simp add: missing_placeholder_def)
  then have "organization ` set (backfill processed) =
      (\<lambda>x. x) ` {x \<in> set required_orgs. x \<notin> processed}"
    by (simp add: backfill_def image_image)
  then show ?thesis by auto
qed

lemma report_covers_required:
  assumes "mistral_client env" and "files \<noteq> []"
  shows "\<exists>rep. analyze_forms env files org_names = Inr rep \<and>
           sorted (map org_sort_key (analyzed_results rep)) \<and>
           set required_orgs \<subseteq> organization ` set (analyzed_results rep) \<and>
           5 \<le> length (analyzed_results rep)"
proof -
  from analyze_forms_report[OF assms, of org_names] obtain rep where
    r: "analyze_forms env files org_names = Inr rep"
    and res: "analyzed_results rep =
             sort_key org_sort_key
               (concat (map (\<lambda>(i, f). doc_entry env org_names i f) (enumerate 0 files)) @
                backfill (processed_orgs rep))"
    and orgs: "processed_orgs rep =
             organization `
               set (concat (map (\<lambda>(i, f). doc_entry env org_names i f) (enumerate 0 files)))"
    by blast
  have s: "sorted (map org_sort_key (analyzed_results rep))" by (simp add: res)
  have "set (analyzed_results rep) =
      set (concat (map (\<lambda>(i, f). doc_entry env org_names i f) (enumerate 0 files))) \<union>
      set (backfill (processed_orgs rep))"
    by (simp only: res set_sort set_append)
  then have "organization ` set (analyzed_results rep) =
      processed_orgs rep \<union> (set required_orgs - processed_orgs rep)"
    by (simp only: image_Un backfill_orgs orgs [symmetric])
  then have c: "set required_orgs \<subseteq> organization ` set (analyzed_results rep)" by auto
  have "card (set required_orgs) = 5" by (simp add: required_orgs_def)
  moreover have "card (set required_orgs) \<le> card (organization ` set (analyzed_results rep))"
    using c by (simp add: card_mono)
  moreover have "card (organization ` set (analyzed_results rep)) \<le> length (analyzed_results rep)"
    by (meson card_image_le card_length le_trans List.finite_set)
  ultimately have "5 \<le> length (analyzed_results rep)" by linarith
  with r s c show ?thesis by blast
qed

end
